theory Spec2Isabelle
  imports Complex_Main
begin

section \<open>Numbers, errors and tensors\<close>

text \<open>
  The program is a React application on top of TensorFlow.js. Tensor entries and JavaScript
  numbers are modelled as real numbers: the rounding, the overflow and the infinities of
  the 32-bit and 64-bit floating-point arithmetic are not represented. Statements that
  depend on how a result is rounded (the exact value of a fused weight, of a loss or of an
  accuracy) are therefore not made; the theorems are about shapes, counts, order, the
  histories and the control flow, where the program agrees with the idealisation. The one
  place where the source divides by a quantity that can be zero
  (\<open>correct / predictions.shape[0]\<close>, and the mean of a loss) keeps the JavaScript result
  of a division by zero: \<open>NaN\<close> or an infinity.
\<close>

datatype jsnum = Num real | NaN | PosInf | NegInf

definition js_divide :: "real \<Rightarrow> real \<Rightarrow> jsnum" where
  "js_divide a b =
     (if b \<noteq> 0 then Num (a / b)
      else if a = 0 then NaN
      else if 0 < a then PosInf else NegInf)"



text \<open>Reading \<open>xs[i]\<close> from a JavaScript array: \<open>undefined\<close> out of range.\<close>

definition js_get :: "'a list \<Rightarrow> int \<Rightarrow> 'a option" where
  "js_get xs i = (if 0 \<le> i \<and> i < int (length xs) then Some (xs ! nat i) else None)"

datatype error =
  ShapeMismatch | TypeError | DanglingModel | FitFailed | PredictFailed | DisposeFailed

text \<open>
  A tensor is its shape and its entries in row-major order, as \<open>dataSync()\<close> returns them.
  Every tensor of the library has as many entries as its shape says.
\<close>

record tensor =
  shape :: "nat list"
  tdata :: "real list"

definition wf_tensor :: "tensor \<Rightarrow> bool" where
  "wf_tensor t = (length (tdata t) = prod_list (shape t))"

text \<open>
  Binary operations of the library broadcast: the shapes are aligned at their last dimension,
  and a dimension of size one is repeated. Shapes that do not fit raise an error.
\<close>

fun broadcast_dims :: "nat list \<Rightarrow> nat list \<Rightarrow> nat list option" where
  "broadcast_dims [] bs = Some bs"
| "broadcast_dims as [] = Some as"
| "broadcast_dims (a # as) (b # bs) =
     (if a = b \<or> b = 1 then map_option ((#) a) (broadcast_dims as bs)
      else if a = 1 then map_option ((#) b) (broadcast_dims as bs)
      else None)"

definition broadcast_shape :: "nat list \<Rightarrow> nat list \<Rightarrow> nat list option" where
  "broadcast_shape s1 s2 = map_option rev (broadcast_dims (rev s1) (rev s2))"

definition pad_shape :: "nat \<Rightarrow> nat list \<Rightarrow> nat list" where
  "pad_shape r s = replicate (r - length s) 1 @ s"

fun expand :: "nat list \<Rightarrow> nat list \<Rightarrow> real list \<Rightarrow> real list" where
  "expand (a # as) (b # bs) d =
     (let chunk = prod_list as;
          rows = map (\<lambda>i. expand as bs (take chunk (drop (i * chunk) d))) [0..<a]
      in if a = b then concat rows else concat (replicate b (concat rows)))"
| "expand as bs d = d"

definition tf_binary :: "(real \<Rightarrow> real \<Rightarrow> real) \<Rightarrow> tensor \<Rightarrow> tensor \<Rightarrow> error + tensor" where
  "tf_binary f x y =
     (if shape x = shape y
      then Inr \<lparr>shape = shape x, tdata = map2 f (tdata x) (tdata y)\<rparr>
      else case broadcast_shape (shape x) (shape y) of
             None \<Rightarrow> Inl ShapeMismatch
           | Some s \<Rightarrow>
               Inr \<lparr>shape = s,
                    tdata = map2 f (expand (pad_shape (length s) (shape x)) s (tdata x))
                                   (expand (pad_shape (length s) (shape y)) s (tdata y))\<rparr>)"

definition tf_add :: "tensor \<Rightarrow> tensor \<Rightarrow> error + tensor" where
  "tf_add = tf_binary (\<lambda>a b. a + b)"

definition tf_sub :: "tensor \<Rightarrow> tensor \<Rightarrow> error + tensor" where
  "tf_sub = tf_binary (\<lambda>a b. a - b)"

definition tf_div_scalar :: "tensor \<Rightarrow> real \<Rightarrow> tensor" where
  "tf_div_scalar t c = t\<lparr>tdata := map (\<lambda>v. v / c) (tdata t)\<rparr>"

definition tf_abs :: "tensor \<Rightarrow> tensor" where
  "tf_abs t = t\<lparr>tdata := map abs (tdata t)\<rparr>"

definition tf_square :: "tensor \<Rightarrow> tensor" where
  "tf_square t = t\<lparr>tdata := map (\<lambda>v. v * v) (tdata t)\<rparr>"

text \<open>\<open>lessEqual\<close> yields a tensor of booleans, which \<open>sum\<close> counts as ones and zeros.\<close>

definition tf_lessEqual :: "tensor \<Rightarrow> real \<Rightarrow> tensor" where
  "tf_lessEqual t c = t\<lparr>tdata := map (\<lambda>v. if v \<le> c then 1 else 0) (tdata t)\<rparr>"

definition tf_sum :: "tensor \<Rightarrow> real" where
  "tf_sum t = sum_list (tdata t)"

text \<open>\<open>tf.tensor2d\<close> from an array of rows, and from a flat array with a given shape.\<close>

definition tensor2d :: "real list list \<Rightarrow> tensor" where
  "tensor2d rows =
     \<lparr>shape = [length rows, (case rows of [] \<Rightarrow> 0 | r # _ \<Rightarrow> length r)], tdata = concat rows\<rparr>"

definition tensor2d_shaped :: "real list \<Rightarrow> nat list \<Rightarrow> tensor" where
  "tensor2d_shaped values s = \<lparr>shape = s, tdata = values\<rparr>"

section \<open>Dataset generation (App.tsx)\<close>

record dataset =
  inputs :: tensor
  outputs :: tensor

text \<open>The nested loops \<open>for a = lo..9, for b = lo..9\<close>, in the order they run.\<close>

definition digitPairs :: "nat \<Rightarrow> (nat \<times> nat) list" where
  "digitPairs lo = concat (map (\<lambda>a. map (\<lambda>b. (a, b)) [lo..<10]) [lo..<10])"

definition additionInputs :: "real list list" where
  "additionInputs = map (\<lambda>(a, b). [real a, real b]) (digitPairs 0)"

definition additionOutputs :: "real list" where
  "additionOutputs = map (\<lambda>(a, b). real a + real b) (digitPairs 0)"

definition generateAdditionData :: dataset where
  "generateAdditionData =
     \<lparr>inputs = tensor2d additionInputs,
      outputs = tensor2d_shaped additionOutputs [length additionOutputs, 1]\<rparr>"

definition multiplicationInputs :: "real list list" where
  "multiplicationInputs = map (\<lambda>(a, b). [real a, real b]) (digitPairs 0)"

definition multiplicationOutputs :: "real list" where
  "multiplicationOutputs = map (\<lambda>(a, b). real a * real b) (digitPairs 0)"

definition generateMultiplicationData :: dataset where
  "generateMultiplicationData =
     \<lparr>inputs = tensor2d multiplicationInputs,
      outputs = tensor2d_shaped multiplicationOutputs [length multiplicationOutputs, 1]\<rparr>"

definition divisionInputs :: "real list list" where
  "divisionInputs = map (\<lambda>(a, b). [real a, real b]) (digitPairs 1)"

definition divisionOutputs :: "real list" where
  "divisionOutputs = map (\<lambda>(a, b). real a / real b) (digitPairs 1)"

definition generateDivisionData :: dataset where
  "generateDivisionData =
     \<lparr>inputs = tensor2d divisionInputs,
      outputs = tensor2d_shaped divisionOutputs [length divisionOutputs, 1]\<rparr>"

section \<open>Networks and weight fusion (App.tsx)\<close>

text \<open>
  A \<open>tf.Sequential\<close> is an object: the application holds references to it and the
  library mutates its weights in place. The store maps a reference to the weight tensors
  of the model, in the order of \<open>getWeights()\<close>: kernel and bias of the hidden layer,
  kernel and bias of the output layer. A new model takes the next free reference.
  The store does not track memory: \<open>tf.tidy\<close> and the \<open>dispose\<close> calls on tensors
  release storage and change no value.
\<close>

type_synonym weights = "tensor list"
type_synonym heap = "weights list"
type_synonym net = nat

text \<open>
  The fixed architecture of \<open>createNetwork\<close>: 2 inputs, 16 hidden units, 1 output.
  The entries come from the initialiser of the library, here a function \<open>vals\<close>.
\<close>

definition arch_shapes :: "nat list list" where
  "arch_shapes = [[2, 16], [16], [16, 1], [1]]"

definition arch_weights :: "(nat \<Rightarrow> real) \<Rightarrow> weights" where
  "arch_weights vals =
     [\<lparr>shape = [2, 16], tdata = map vals [0..<32]\<rparr>,
      \<lparr>shape = [16], tdata = map vals [32..<48]\<rparr>,
      \<lparr>shape = [16, 1], tdata = map vals [48..<64]\<rparr>,
      \<lparr>shape = [1], tdata = map vals [64..<65]\<rparr>]"

definition createNetwork :: "(nat \<Rightarrow> real) \<Rightarrow> heap \<Rightarrow> net \<times> heap" where
  "createNetwork vals h = (length h, h @ [arch_weights vals])"

definition getWeights :: "heap \<Rightarrow> net \<Rightarrow> error + weights" where
  "getWeights h n = (if n < length h then Inr (h ! n) else Inl DanglingModel)"

text \<open>\<open>setWeights\<close> refuses a list whose length or shapes differ from the model's own.\<close>

definition setWeights :: "heap \<Rightarrow> net \<Rightarrow> weights \<Rightarrow> error + heap" where
  "setWeights h n ws =
     (if n < length h
      then (if map shape ws = map shape (h ! n) then Inr (h[n := ws]) else Inl ShapeMismatch)
      else Inl DanglingModel)"

text \<open>
  \<open>weights1.map((w1, i) => w1.add(weights2[i]).div(2))\<close>: the index \<open>i\<close> runs over
  \<open>weights1\<close>; a missing \<open>weights2[i]\<close> is \<open>undefined\<close> and \<open>add\<close> throws.
\<close>

fun averageEach :: "weights \<Rightarrow> weights \<Rightarrow> nat \<Rightarrow> error + weights" where
  "averageEach [] weights2 i = Inr []"
| "averageEach (w1 # rest) weights2 i =
     (case js_get weights2 (int i) of
        None \<Rightarrow> Inl TypeError
      | Some w2 \<Rightarrow>
          (case tf_add w1 w2 of
             Inl e \<Rightarrow> Inl e
           | Inr s \<Rightarrow>
               (case averageEach rest weights2 (i + 1) of
                  Inl e \<Rightarrow> Inl e
                | Inr others \<Rightarrow> Inr (tf_div_scalar s 2 # others))))"

definition averageWeights :: "(nat \<Rightarrow> real) \<Rightarrow> heap \<Rightarrow> net \<Rightarrow> net \<Rightarrow> (error + net) \<times> heap" where
  "averageWeights vals h net1 net2 =
     (case createNetwork vals h of
        (merged, h1) \<Rightarrow>
          (case getWeights h1 net1 of
             Inl e \<Rightarrow> (Inl e, h1)
           | Inr weights1 \<Rightarrow>
               (case getWeights h1 net2 of
                  Inl e \<Rightarrow> (Inl e, h1)
                | Inr weights2 \<Rightarrow>
                    (case averageEach weights1 weights2 0 of
                       Inl e \<Rightarrow> (Inl e, h1)
                     | Inr averagedWeights \<Rightarrow>
                         (case setWeights h1 merged averagedWeights of
                            Inl e \<Rightarrow> (Inl e, h1)
                          | Inr h2 \<Rightarrow> (Inr merged, h2))))))"

section \<open>Accuracy and loss (App.tsx)\<close>

definition calculateAccuracy :: "tensor \<Rightarrow> tensor \<Rightarrow> error + jsnum" where
  "calculateAccuracy predictions targets =
     (case tf_sub predictions targets of
        Inl e \<Rightarrow> Inl e
      | Inr d \<Rightarrow>
          (let diff = tf_abs d;
               correct = tf_sum (tf_lessEqual diff 0.5)
           in Inr (case shape predictions of
                     [] \<Rightarrow> NaN
                   | n # _ \<Rightarrow> js_divide correct (real n))))"

text \<open>
  \<open>tf.losses.meanSquaredError\<close>: the mean of the squared differences. The library
  asserts that labels and predictions have the same shape and throws otherwise.
\<close>

definition meanSquaredError :: "tensor \<Rightarrow> tensor \<Rightarrow> error + jsnum" where
  "meanSquaredError labels predictions =
     (if shape labels \<noteq> shape predictions then Inl ShapeMismatch
      else case tf_sub labels predictions of
             Inl e \<Rightarrow> Inl e
           | Inr d \<Rightarrow> Inr (js_divide (tf_sum (tf_square d)) (real (length (tdata d)))))"

section \<open>The training session (App.tsx)\<close>

record NetworkStats =
  epoch :: nat
  loss :: jsnum
  accuracy :: jsnum
  testLoss :: "jsnum option"
  testAccuracy :: "jsnum option"

text \<open>The state of the \<open>App\<close> component, together with the store of the models.\<close>

record app_state =
  additionNet :: "net option"
  multiplicationNet :: "net option"
  mergedNet :: "net option"
  additionStats :: "NetworkStats list"
  multiplicationStats :: "NetworkStats list"
  mergedStats :: "NetworkStats list"
  isTraining :: bool
  currentEpoch :: nat
  tf_heap :: heap

text \<open>
  What the library does in one epoch is an input of the model. \<open>fit\<close> either throws
  (\<open>None\<close>) or reports a loss and leaves new entries in the weights of the model it
  trains; \<open>predict\<close> either throws or returns one scalar per input row;
  \<open>mergedInit\<close> is the initialiser of the model that \<open>averageWeights\<close> creates;
  \<open>disposeMerged\<close> tells whether the call \<open>mergedNet.dispose()\<close> returns. That call
  releases memory, which the store does not track, so in the model it changes nothing; it
  is made only when the \<open>mergedNet\<close> that the callback has captured is not \<open>null\<close>.
\<close>

record epoch_env =
  addFit :: "(jsnum \<times> (nat \<Rightarrow> real)) option"
  addPredict :: "(nat \<Rightarrow> real) option"
  multFit :: "(jsnum \<times> (nat \<Rightarrow> real)) option"
  multPredict :: "(nat \<Rightarrow> real) option"
  mergedInit :: "nat \<Rightarrow> real"
  disposeMerged :: bool
  divPredict :: "(nat \<Rightarrow> real) option"

definition predict :: "(nat \<Rightarrow> real) option \<Rightarrow> tensor \<Rightarrow> tensor option" where
  "predict result x =
     (case result of
        None \<Rightarrow> None
      | Some p \<Rightarrow>
          (case shape x of
             [] \<Rightarrow> None
           | n # _ \<Rightarrow> Some \<lparr>shape = [n, 1], tdata = map p [0..<n]\<rparr>))"

text \<open>
  One setter call \<open>setXStats(prev => [...prev, stat])\<close> appends to the history. An
  exception leaves the state as the setters called so far have made it: the loop has no
  handler, so the steps return the error together with the state reached.
\<close>

definition trainAddition ::
    "nat \<Rightarrow> net \<Rightarrow> dataset \<Rightarrow> epoch_env \<Rightarrow> app_state \<Rightarrow> error option \<times> app_state" where
  "trainAddition ep addNet addData env s =
     (case addFit env of
        None \<Rightarrow> (Some FitFailed, s)
      | Some (addLoss, w) \<Rightarrow>
          (let s1 = s\<lparr>tf_heap := (tf_heap s)[addNet := arch_weights w]\<rparr> in
           case predict (addPredict env) (inputs addData) of
             None \<Rightarrow> (Some PredictFailed, s1)
           | Some addPred \<Rightarrow>
               (case calculateAccuracy addPred (outputs addData) of
                  Inl e \<Rightarrow> (Some e, s1)
                | Inr addAcc \<Rightarrow>
                    (None, s1\<lparr>additionStats := additionStats s1 @
                       [\<lparr>epoch = ep + 1, loss = addLoss, accuracy = addAcc,
                         testLoss = None, testAccuracy = None\<rparr>]\<rparr>))))"

definition trainMultiplication ::
    "nat \<Rightarrow> net \<Rightarrow> dataset \<Rightarrow> epoch_env \<Rightarrow> app_state \<Rightarrow> error option \<times> app_state" where
  "trainMultiplication ep multNet multData env s =
     (case multFit env of
        None \<Rightarrow> (Some FitFailed, s)
      | Some (multLoss, w) \<Rightarrow>
          (let s1 = s\<lparr>tf_heap := (tf_heap s)[multNet := arch_weights w]\<rparr> in
           case predict (multPredict env) (inputs multData) of
             None \<Rightarrow> (Some PredictFailed, s1)
           | Some multPred \<Rightarrow>
               (case calculateAccuracy multPred (outputs multData) of
                  Inl e \<Rightarrow> (Some e, s1)
                | Inr multAcc \<Rightarrow>
                    (None, s1\<lparr>multiplicationStats := multiplicationStats s1 @
                       [\<lparr>epoch = ep + 1, loss = multLoss, accuracy = multAcc,
                         testLoss = None, testAccuracy = None\<rparr>]\<rparr>))))"

definition testMerged ::
    "nat \<Rightarrow> net \<Rightarrow> net \<Rightarrow> net option \<Rightarrow> dataset \<Rightarrow> epoch_env \<Rightarrow> app_state
       \<Rightarrow> error option \<times> app_state" where
  "testMerged ep addNet multNet closureMerged divData env s =
     (case averageWeights (mergedInit env) (tf_heap s) addNet multNet of
        (Inl e, h) \<Rightarrow> (Some e, s\<lparr>tf_heap := h\<rparr>)
      | (Inr merged, h) \<Rightarrow>
          (if closureMerged \<noteq> None \<and> \<not> disposeMerged env
           then (Some DisposeFailed, s\<lparr>tf_heap := h\<rparr>)
           else
             (let s1 = s\<lparr>tf_heap := h, mergedNet := Some merged\<rparr> in
              case predict (divPredict env) (inputs divData) of
                None \<Rightarrow> (Some PredictFailed, s1)
              | Some divPred \<Rightarrow>
                  (case meanSquaredError (outputs divData) divPred of
                     Inl e \<Rightarrow> (Some e, s1)
                   | Inr divLossVal \<Rightarrow>
                       (case calculateAccuracy divPred (outputs divData) of
                          Inl e \<Rightarrow> (Some e, s1)
                        | Inr divAcc \<Rightarrow>
                            (None, s1\<lparr>mergedStats := mergedStats s1 @
                               [\<lparr>epoch = ep + 1, loss = divLossVal, accuracy = divAcc,
                                 testLoss = Some divLossVal, testAccuracy = Some divAcc\<rparr>]\<rparr>))))))"

text \<open>
  The body of the loop \<open>for (let epoch = 0; epoch < epochs; epoch++)\<close>. The pause at its
  end only yields to the user interface and is left out.
\<close>

definition epochBody ::
    "nat \<Rightarrow> net \<Rightarrow> net \<Rightarrow> net option \<Rightarrow> dataset \<Rightarrow> dataset \<Rightarrow> dataset \<Rightarrow> epoch_env
       \<Rightarrow> app_state \<Rightarrow> error option \<times> app_state" where
  "epochBody ep addNet multNet closureMerged addData multData divData env s =
     (case trainAddition ep addNet addData env (s\<lparr>currentEpoch := ep + 1\<rparr>) of
        (Some e, s1) \<Rightarrow> (Some e, s1)
      | (None, s1) \<Rightarrow>
          (case trainMultiplication ep multNet multData env s1 of
             (Some e, s2) \<Rightarrow> (Some e, s2)
           | (None, s2) \<Rightarrow> testMerged ep addNet multNet closureMerged divData env s2))"

function epochLoop ::
    "(nat \<Rightarrow> epoch_env) \<Rightarrow> net \<Rightarrow> net \<Rightarrow> net option \<Rightarrow> dataset \<Rightarrow> dataset \<Rightarrow> dataset
       \<Rightarrow> nat \<Rightarrow> nat \<Rightarrow> app_state \<Rightarrow> error option \<times> app_state" where
  "epochLoop envs addNet multNet closureMerged addData multData divData epochs ep s =
     (if ep < epochs
      then (case epochBody ep addNet multNet closureMerged addData multData divData (envs ep) s of
              (Some e, s1) \<Rightarrow> (Some e, s1)
            | (None, s1) \<Rightarrow>
                epochLoop envs addNet multNet closureMerged addData multData divData epochs
                  (ep + 1) s1)
      else (None, s))"
  by pat_completeness auto
termination
  by (relation "measure (\<lambda>(envs, addNet, multNet, closureMerged, addData, multData, divData,
        epochs, ep, s). epochs - ep)") auto

declare epochLoop.simps [simp del]

text \<open>
  \<open>trainNetworks\<close>: \<open>addInit\<close> and \<open>multInit\<close> are the initialisers of the two new
  models, \<open>envs\<close> gives the behaviour of the library in each epoch. The callback is
  created anew whenever \<open>isTraining\<close> changes, so the \<open>mergedNet\<close> it has captured is
  the one of the state in which the session starts; it stays the same through the loop.
\<close>

definition startSession :: "app_state \<Rightarrow> app_state" where
  "startSession s =
     s\<lparr>isTraining := True, currentEpoch := 0,
       additionStats := [], multiplicationStats := [], mergedStats := []\<rparr>"

definition trainNetworks ::
    "(nat \<Rightarrow> real) \<Rightarrow> (nat \<Rightarrow> real) \<Rightarrow> (nat \<Rightarrow> epoch_env) \<Rightarrow> app_state
       \<Rightarrow> error option \<times> app_state" where
  "trainNetworks addInit multInit envs s =
     (if isTraining s then (None, s)
      else
        (let s0 = startSession s in
         case createNetwork addInit (tf_heap s0) of
           (addNet, h1) \<Rightarrow>
             (case createNetwork multInit h1 of
                (multNet, h2) \<Rightarrow>
                  (let s1 = s0\<lparr>tf_heap := h2, additionNet := Some addNet,
                               multiplicationNet := Some multNet\<rparr>;
                       addData = generateAdditionData;
                       multData = generateMultiplicationData;
                       divData = generateDivisionData;
                       epochs = 50
                   in case epochLoop envs addNet multNet (mergedNet s) addData multData divData
                             epochs 0 s1 of
                        (Some e, s2) \<Rightarrow> (Some e, s2)
                      | (None, s2) \<Rightarrow> (None, s2\<lparr>isTraining := False\<rparr>)))))"

section \<open>The visualisation (NetworkVisualization.tsx)\<close>

subsection \<open>Simulated activations\<close>




subsection \<open>Selection of the connections to draw\<close>

record conn =
  fromIdx :: nat
  toIdx :: nat
  weight :: real
  absWeight :: real

text \<open>
  The connections of one pair of adjacent layers. \<open>fromLen\<close> and \<open>toLen\<close> are the node
  counts of the two layers in the picture, the shape of the kernel gives \<open>fromNodes\<close> and
  \<open>toNodes\<close>. A kernel of rank below two has an \<open>undefined\<close> dimension, and a loop
  bounded by it does not run.
\<close>

definition connectionWeights :: "nat \<Rightarrow> nat \<Rightarrow> tensor \<Rightarrow> conn list" where
  "connectionWeights fromLen toLen weightMatrix =
     (case shape weightMatrix of
        fromNodes # toNodes # _ \<Rightarrow>
          concat (map (\<lambda>fi. map (\<lambda>ti.
              (let dataIdx = fi * toNodes + ti;
                   w = tdata weightMatrix ! dataIdx
               in \<lparr>fromIdx = fi, toIdx = ti, weight = w, absWeight = \<bar>w\<bar>\<rparr>))
            [0..<min toLen toNodes]) [0..<min fromLen fromNodes])
      | _ \<Rightarrow> [])"

text \<open>\<open>sort((a, b) => b.absWeight - a.absWeight)\<close>: descending and stable.\<close>

definition sortConnections :: "conn list \<Rightarrow> conn list" where
  "sortConnections cw = sort_key (\<lambda>c. - absWeight c) cw"

definition topConnections :: "conn list \<Rightarrow> nat \<Rightarrow> nat \<Rightarrow> nat" where
  "topConnections cw fromLen toLen =
     max (nat \<lceil>real (length cw) * 0.3\<rceil>) (min fromLen toLen)"

text \<open>\<open>connectionWeights[topConnections - 1]?.absWeight || 0\<close>\<close>

definition threshold :: "conn list \<Rightarrow> nat \<Rightarrow> real" where
  "threshold cw topN =
     (case js_get cw (int topN - 1) of
        None \<Rightarrow> 0
      | Some c \<Rightarrow> (if absWeight c \<noteq> 0 then absWeight c else 0))"

text \<open>
  The drawing loop returns the connections it has stroked, in order. Reading
  \<open>conn.absWeight\<close> of an \<open>undefined\<close> entry throws a \<open>TypeError\<close>, which \<open>draw\<close>
  catches; the lines stroked before stay on the canvas.
\<close>

function drawLoop ::
    "conn list \<Rightarrow> nat \<Rightarrow> real \<Rightarrow> nat \<Rightarrow> conn list \<Rightarrow> error option \<times> conn list" where
  "drawLoop cw topN th i drawn =
     (if i < topN
      then (case js_get cw (int i) of
              None \<Rightarrow> (Some TypeError, drawn)
            | Some c \<Rightarrow>
                (if absWeight c < th * 0.5 then (None, drawn)
                 else drawLoop cw topN th (i + 1) (drawn @ [c])))
      else (None, drawn))"
  by pat_completeness auto
termination
  by (relation "measure (\<lambda>(cw, topN, th, i, drawn). topN - i)") auto

declare drawLoop.simps [simp del]

definition drawLayerConnections :: "nat \<Rightarrow> nat \<Rightarrow> tensor \<Rightarrow> error option \<times> conn list" where
  "drawLayerConnections fromLen toLen weightMatrix =
     (let cw = sortConnections (connectionWeights fromLen toLen weightMatrix);
          topN = topConnections cw fromLen toLen;
          th = threshold cw topN
      in drawLoop cw topN th 0 [])"

text \<open>
  The edge selection in the words of the specification: \<open>k\<close> is the larger of 30 percent
  of the connections, rounded up, and the size of the smaller layer; the threshold is the
  magnitude of the \<open>k\<close>-th ranked connection, or zero when there is none; connections are
  rendered in ranked order until \<open>k\<close> are drawn or one falls below half the threshold.
\<close>

definition spec_k :: "nat \<Rightarrow> nat \<Rightarrow> nat \<Rightarrow> nat" where
  "spec_k totalConnections sourceCount targetCount =
     max (nat \<lceil>0.3 * real totalConnections\<rceil>) (min sourceCount targetCount)"

definition spec_threshold :: "conn list \<Rightarrow> nat \<Rightarrow> real" where
  "spec_threshold ranked k =
     (if 1 \<le> k \<and> k \<le> length ranked then absWeight (ranked ! (k - 1)) else 0)"

fun spec_render :: "nat \<Rightarrow> real \<Rightarrow> conn list \<Rightarrow> conn list" where
  "spec_render 0 th ranked = []"
| "spec_render (Suc k) th [] = []"
| "spec_render (Suc k) th (c # ranked) =
     (if absWeight c < th / 2 then [] else c # spec_render k th ranked)"

section \<open>Outcomes of an epoch\<close>

text \<open>
  Which library calls of an epoch succeed, and a history that keeps what it held and gains
  stats with the given epoch indices.
\<close>

definition addition_ok :: "epoch_env \<Rightarrow> bool" where
  "addition_ok env = (addFit env \<noteq> None \<and> addPredict env \<noteq> None)"

definition multiplication_ok :: "epoch_env \<Rightarrow> bool" where
  "multiplication_ok env = (multFit env \<noteq> None \<and> multPredict env \<noteq> None)"

definition merged_ok :: "net option \<Rightarrow> epoch_env \<Rightarrow> bool" where
  "merged_ok closureMerged env =
     ((closureMerged = None \<or> disposeMerged env) \<and> divPredict env \<noteq> None)"

definition epoch_ok :: "net option \<Rightarrow> epoch_env \<Rightarrow> bool" where
  "epoch_ok closureMerged env =
     (addition_ok env \<and> multiplication_ok env \<and> merged_ok closureMerged env)"

definition keeps_and_appends :: "NetworkStats list \<Rightarrow> NetworkStats list \<Rightarrow> nat list \<Rightarrow> bool" where
  "keeps_and_appends h h' eps =
     (take (length h) h' = h \<and> map epoch (drop (length h) h') = eps)"

section \<open>Concrete inputs\<close>

text \<open>Inputs at which the theorems below are instantiated.\<close>

definition onesInit :: "nat \<Rightarrow> real" where
  "onesInit i = 1"

definition threesInit :: "nat \<Rightarrow> real" where
  "threesInit i = 3"

definition zeroInit :: "nat \<Rightarrow> real" where
  "zeroInit i = 0"

definition twoModels :: heap where
  "twoModels = [arch_weights onesInit, arch_weights threesInit]"

definition kernel23 :: tensor where
  "kernel23 = \<lparr>shape = [2, 3], tdata = [1, - 5, 2, 1 / 2, 3, - 4]\<rparr>"

definition flat23 :: tensor where
  "flat23 = \<lparr>shape = [2, 3], tdata = [2, - 2, 2, - 2, 2, 2]\<rparr>"

definition okEnv :: epoch_env where
  "okEnv = \<lparr>addFit = Some (Num 1, zeroInit), addPredict = Some zeroInit,
            multFit = Some (Num 1, zeroInit), multPredict = Some zeroInit,
            mergedInit = zeroInit, disposeMerged = True, divPredict = Some zeroInit\<rparr>"

definition multFitFails :: epoch_env where
  "multFitFails = okEnv\<lparr>multFit := None\<rparr>"

definition allEpochsOk :: "nat \<Rightarrow> epoch_env" where
  "allEpochsOk i = okEnv"

definition firstEpochFails :: "nat \<Rightarrow> epoch_env" where
  "firstEpochFails i = multFitFails"

definition secondEpochFails :: "nat \<Rightarrow> epoch_env" where
  "secondEpochFails i = (if i = 0 then okEnv else multFitFails)"

definition idleState :: app_state where
  "idleState = \<lparr>additionNet = None, multiplicationNet = None, mergedNet = None,
                additionStats = [], multiplicationStats = [], mergedStats = [],
                isTraining = False, currentEpoch = 0, tf_heap = []\<rparr>"

definition trainingState :: app_state where
  "trainingState = \<lparr>additionNet = Some 0, multiplicationNet = Some 1, mergedNet = None,
                additionStats = [], multiplicationStats = [], mergedStats = [],
                isTraining = True, currentEpoch = 0, tf_heap = twoModels\<rparr>"

section \<open>Properties of the datasets\<close>

lemma length_digitPairs: "length (digitPairs lo) = (10 - lo) * (10 - lo)"
  by (simp add: digitPairs_def length_concat o_def sum_list_triv)

lemma set_digitPairs: "set (digitPairs lo) = {lo..<10} \<times> {lo..<10}"
  by (auto simp: digitPairs_def)

lemma set_rows: "set (map (\<lambda>(a, b). [real a, real b]) (digitPairs lo)) =
   {[real a, real b] | a b. lo \<le> a \<and> a \<le> 9 \<and> lo \<le> b \<and> b \<le> 9}"
  by (auto simp: set_digitPairs image_iff) 

lemma tensor2d_rows_shape:
  "rows \<noteq> [] \<Longrightarrow> length (hd rows) = c \<Longrightarrow> shape (tensor2d rows) = [length rows, c]"
  by (cases rows) (simp_all add: tensor2d_def)

lemma hd_rows: "lo < 10 \<Longrightarrow> length (hd (map (\<lambda>(a, b). [real a, real b]) (digitPairs lo))) = 2"
  by (simp add: digitPairs_def upt_conv_Cons hd_map split: prod.splits)

lemma rows_nonempty: "lo < 10 \<Longrightarrow> map (\<lambda>(a, b). [real a, real b]) (digitPairs lo) \<noteq> []"
  using length_digitPairs [of lo] by (cases "digitPairs lo") auto

lemma generated_lengths:
  "length additionInputs = 100" "length additionOutputs = 100"
  "length multiplicationInputs = 100" "length multiplicationOutputs = 100"
  "length divisionInputs = 81" "length divisionOutputs = 81"
  by (simp_all add: additionInputs_def additionOutputs_def multiplicationInputs_def
      multiplicationOutputs_def divisionInputs_def divisionOutputs_def length_digitPairs)

lemma generated_input_shapes:
  "shape (inputs generateAdditionData) = [100, 2]"
  "shape (inputs generateMultiplicationData) = [100, 2]"
  "shape (inputs generateDivisionData) = [81, 2]"
  unfolding generateAdditionData_def generateMultiplicationData_def generateDivisionData_def
    additionInputs_def multiplicationInputs_def divisionInputs_def
  by (simp_all add: tensor2d_rows_shape [OF rows_nonempty hd_rows] length_digitPairs)

lemma generated_output_shapes:
  "shape (outputs generateAdditionData) = [100, 1]"
  "shape (outputs generateMultiplicationData) = [100, 1]"
  "shape (outputs generateDivisionData) = [81, 1]"
  by (simp_all add: generateAdditionData_def generateMultiplicationData_def
      generateDivisionData_def tensor2d_shaped_def generated_lengths)

lemma concat_rows_nth:
  "\<forall>r \<in> set rows. length r = c \<Longrightarrow> i < length rows \<Longrightarrow> j < c \<Longrightarrow>
   concat rows ! (c * i + j) = rows ! i ! j"
proof (induction rows arbitrary: i)
  case Nil
  then show ?case by simp
next
  case (Cons r rs)
  show ?case
  proof (cases i)
    case 0
    then show ?thesis using Cons.prems by (simp add: nth_append)
  next
    case (Suc k)
    have "concat rs ! (c * k + j) = rs ! k ! j"
      using Cons.IH [of k] Cons.prems Suc by simp
    moreover have "c * i + j = length r + (c * k + j)"
      using Cons.prems(1) Suc by simp
    ultimately show ?thesis using Suc by (simp add: nth_append)
  qed
qed

lemma division_row:
  assumes "i < 81"
  shows "\<exists>a b. 1 \<le> a \<and> a \<le> 9 \<and> 1 \<le> b \<and> b \<le> 9 \<and> divisionInputs ! i = [real a, real b]"
proof -
  have l: "i < length (digitPairs 1)" using assms by (simp add: length_digitPairs)
  then have "digitPairs 1 ! i \<in> set (digitPairs 1)" by (rule nth_mem)
  then obtain a b where ab: "digitPairs 1 ! i = (a, b)" "1 \<le> a" "a \<le> 9" "1 \<le> b" "b \<le> 9"
    unfolding set_digitPairs by (cases "digitPairs 1 ! i") auto
  have "divisionInputs ! i = [real a, real b]"
    using l ab(1) by (simp add: divisionInputs_def)
  with ab show ?thesis by blast
qed

lemma division_tensor_rows:
  assumes "i < 81"
  shows "\<exists>a b. 1 \<le> a \<and> a \<le> 9 \<and> 1 \<le> b \<and> b \<le> 9
           \<and> tdata (inputs generateDivisionData) ! (2 * i) = real a
           \<and> tdata (inputs generateDivisionData) ! (2 * i + 1) = real b"
proof -
  from division_row [OF assms] obtain a b where
    ab: "1 \<le> a" "a \<le> 9" "1 \<le> b" "b \<le> 9" "divisionInputs ! i = [real a, real b]"
    by blast
  have r: "\<forall>r \<in> set divisionInputs. length r = 2"
    by (auto simp: divisionInputs_def)
  have l: "i < length divisionInputs"
    using assms by (simp add: divisionInputs_def length_digitPairs)
  have "concat divisionInputs ! (2 * i + 0) = divisionInputs ! i ! 0"
    "concat divisionInputs ! (2 * i + 1) = divisionInputs ! i ! 1"
    using r l by (rule concat_rows_nth, simp)+
  then have "tdata (inputs generateDivisionData) ! (2 * i) = real a"
    "tdata (inputs generateDivisionData) ! (2 * i + 1) = real b"
    using ab(5) by (simp_all add: generateDivisionData_def tensor2d_def)
  with ab(1-4) show ?thesis by blast
qed

lemma distinct_digitPairs: "distinct (digitPairs lo)"
  unfolding digitPairs_def
  by (rule distinct_concat) (auto simp: distinct_map inj_on_def)

lemma distinct_rows: "distinct (map (\<lambda>(a, b). [real a, real b]) (digitPairs lo))"
  using distinct_digitPairs [of lo] by (auto simp: distinct_map inj_on_def)

text \<open>
  Claim C8. The addition and the multiplication datasets hold exactly 100 records, one for
  each pair \<open>(a, b)\<close> of digits from 0 to 9, each pair once; the division dataset holds
  exactly 81 records, one for each pair of digits from 1 to 9, each pair once, and the
  second component of a division record is never zero. The input tensors that the
  generators return hold these records row by row (100, 100 and 81 rows of two columns),
  the output tensors one value for each record; in the division tensor the two entries of
  every row are digits from 1 to 9, so the entry in the second column is not zero.
\<close>

theorem datasets_record_counts:
  "length additionInputs = 100 \<and> length additionOutputs = 100
   \<and> set additionInputs = {[real a, real b] | a b. a \<le> 9 \<and> b \<le> 9}
   \<and> shape (inputs generateAdditionData) = [100, 2]
   \<and> shape (outputs generateAdditionData) = [100, 1]
   \<and> length multiplicationInputs = 100 \<and> length multiplicationOutputs = 100
   \<and> set multiplicationInputs = {[real a, real b] | a b. a \<le> 9 \<and> b \<le> 9}
   \<and> shape (inputs generateMultiplicationData) = [100, 2]
   \<and> shape (outputs generateMultiplicationData) = [100, 1]
   \<and> length divisionInputs = 81 \<and> length divisionOutputs = 81
   \<and> set divisionInputs = {[real a, real b] | a b. 1 \<le> a \<and> a \<le> 9 \<and> 1 \<le> b \<and> b \<le> 9}
   \<and> shape (inputs generateDivisionData) = [81, 2]
   \<and> shape (outputs generateDivisionData) = [81, 1]
   \<and> (\<forall>r \<in> set divisionInputs. r ! 1 \<noteq> 0)
   \<and> distinct additionInputs \<and> distinct multiplicationInputs \<and> distinct divisionInputs
   \<and> tdata (inputs generateAdditionData) = concat additionInputs
   \<and> tdata (inputs generateMultiplicationData) = concat multiplicationInputs
   \<and> tdata (inputs generateDivisionData) = concat divisionInputs
   \<and> length (tdata (outputs generateAdditionData)) = 100
   \<and> length (tdata (outputs generateMultiplicationData)) = 100
   \<and> length (tdata (outputs generateDivisionData)) = 81
   \<and> (\<forall>i<81. \<exists>a b. 1 \<le> a \<and> a \<le> 9 \<and> 1 \<le> b \<and> b \<le> 9
          \<and> tdata (inputs generateDivisionData) ! (2 * i) = real a
          \<and> tdata (inputs generateDivisionData) ! (2 * i + 1) = real b)
   \<and> (\<forall>i<81. tdata (inputs generateDivisionData) ! (2 * i + 1) \<noteq> 0)"
proof -
  note a = generated_lengths
  have b: "set additionInputs = {[real a, real b] | a b. a \<le> 9 \<and> b \<le> 9}"
    "set multiplicationInputs = {[real a, real b] | a b. a \<le> 9 \<and> b \<le> 9}"
    "set divisionInputs = {[real a, real b] | a b. 1 \<le> a \<and> a \<le> 9 \<and> 1 \<le> b \<and> b \<le> 9}"
    unfolding additionInputs_def multiplicationInputs_def divisionInputs_def set_rows by simp_all
  note c = generated_input_shapes
  note d = generated_output_shapes
  have e: "\<forall>r \<in> set divisionInputs. r ! 1 \<noteq> 0"
    unfolding b by auto
  have f: "distinct additionInputs" "distinct multiplicationInputs" "distinct divisionInputs"
    unfolding additionInputs_def multiplicationInputs_def divisionInputs_def
    by (rule distinct_rows)+
  have g: "tdata (inputs generateAdditionData) = concat additionInputs"
    "tdata (inputs generateMultiplicationData) = concat multiplicationInputs"
    "tdata (inputs generateDivisionData) = concat divisionInputs"
    by (simp_all add: generateAdditionData_def generateMultiplicationData_def
        generateDivisionData_def tensor2d_def)
  have h: "length (tdata (outputs generateAdditionData)) = 100"
    "length (tdata (outputs generateMultiplicationData)) = 100"
    "length (tdata (outputs generateDivisionData)) = 81"
    by (simp_all add: generateAdditionData_def generateMultiplicationData_def
        generateDivisionData_def tensor2d_shaped_def generated_lengths)
  have k: "\<forall>i<81. \<exists>a b. 1 \<le> a \<and> a \<le> 9 \<and> 1 \<le> b \<and> b \<le> 9
          \<and> tdata (inputs generateDivisionData) ! (2 * i) = real a
          \<and> tdata (inputs generateDivisionData) ! (2 * i + 1) = real b"
    using division_tensor_rows by blast
  have m: "\<forall>i<81. tdata (inputs generateDivisionData) ! (2 * i + 1) \<noteq> 0"
  proof (intro allI impI)
    fix i :: nat assume "i < 81"
    from division_tensor_rows [OF this] obtain b :: nat where
      "1 \<le> b" "tdata (inputs generateDivisionData) ! (2 * i + 1) = real b"
      by blast
    then show "tdata (inputs generateDivisionData) ! (2 * i + 1) \<noteq> 0" by simp
  qed
  show ?thesis by (intro conjI a b c d e f g h k m)
qed

theorem datasets_record_counts_witness:
  "[3, 4] \<in> set divisionInputs \<and> [3, 4 :: real] ! 1 \<noteq> 0
   \<and> (20 :: nat) < 81 \<and> tdata (inputs generateDivisionData) ! (2 * 20 + 1) \<noteq> 0"
proof -
  from datasets_record_counts
  have s: "set divisionInputs = {[real a, real b] | a b. 1 \<le> a \<and> a \<le> 9 \<and> 1 \<le> b \<and> b \<le> 9}"
    and q: "\<forall>r \<in> set divisionInputs. r ! 1 \<noteq> 0"
    by simp_all
  from datasets_record_counts
  have t: "\<forall>i<81. tdata (inputs generateDivisionData) ! (2 * i + 1) \<noteq> 0"
    by (elim conjE)
  have "[real 3, real 4] \<in> set divisionInputs"
    unfolding s by force
  then have m: "[3, 4] \<in> set divisionInputs" by simp
  with q have n: "[3, 4 :: real] ! 1 \<noteq> 0" by (rule bspec)
  have "tdata (inputs generateDivisionData) ! (2 * 20 + 1) \<noteq> 0"
    using t [rule_format, of 20] by simp
  with m n show ?thesis by simp
qed

section \<open>Properties of the simulated activations\<close>







section \<open>Properties of the tensor operations\<close>

lemma tf_binary_same_shape:
  "shape x = shape y \<Longrightarrow> tf_binary f x y = Inr \<lparr>shape = shape x, tdata = map2 f (tdata x) (tdata y)\<rparr>"
  by (simp add: tf_binary_def)

lemma calculateAccuracy_same_shape:
  assumes "shape predictions = n # rest" "shape targets = shape predictions"
  shows "\<exists>acc. calculateAccuracy predictions targets = Inr acc"
  using assms
  by (simp add: calculateAccuracy_def tf_sub_def tf_binary_same_shape Let_def)

section \<open>Properties of the weight fusion\<close>

lemma averageEach_same_shapes:
  "i + length weights1 \<le> length weights2 \<Longrightarrow>
   \<forall>j<length weights1. shape (weights1 ! j) = shape (weights2 ! (i + j)) \<Longrightarrow>
   \<exists>ws. averageEach weights1 weights2 i = Inr ws \<and> map shape ws = map shape weights1"
proof (induction weights1 arbitrary: i)
  case Nil
  then show ?case by simp
next
  case (Cons w1 rest)
  have i: "i < length weights2" using Cons.prems(1) by simp
  have sh: "shape w1 = shape (weights2 ! i)" using Cons.prems(2) by force
  have "\<forall>j<length rest. shape (rest ! j) = shape (weights2 ! (i + 1 + j))"
    using Cons.prems(2) by force
  with Cons.IH [of "i + 1"] Cons.prems(1)
  obtain ws where IH: "averageEach rest weights2 (i + 1) = Inr ws" "map shape ws = map shape rest"
    by auto
  show ?case
    using i sh IH
    by (simp add: js_get_def tf_add_def tf_binary_same_shape tf_div_scalar_def)
qed

lemma arch_length: "map shape w = arch_shapes \<Longrightarrow> length w = 4"
  by (drule arg_cong [where f = length]) (simp add: arch_shapes_def)

lemma averageWeights_same_shapes:
  assumes "net1 < length h" "net2 < length h"
    and "map shape (h ! net1) = arch_shapes" "map shape (h ! net2) = arch_shapes"
  shows "\<exists>ws. averageWeights vals h net1 net2 = (Inr (length h), h @ [ws])
            \<and> map shape ws = arch_shapes"
proof -
  have l: "length (h ! net1) = 4" "length (h ! net2) = 4"
    using assms(3,4) by (simp_all add: arch_length)
  have s: "\<forall>j<length (h ! net1). shape (h ! net1 ! j) = shape (h ! net2 ! (0 + j))"
  proof (intro allI impI)
    fix j assume "j < length (h ! net1)"
    then have "j < length (h ! net1)" "j < length (h ! net2)" using l by simp_all
    then have "shape (h ! net1 ! j) = map shape (h ! net1) ! j"
      "shape (h ! net2 ! j) = map shape (h ! net2) ! j" by simp_all
    then show "shape (h ! net1 ! j) = shape (h ! net2 ! (0 + j))"
      using assms(3,4) by simp
  qed
  from averageEach_same_shapes [of 0 "h ! net1" "h ! net2"] s l
  obtain ws where e: "averageEach (h ! net1) (h ! net2) 0 = Inr ws"
    and m: "map shape ws = map shape (h ! net1)"
    by auto
  have m': "map shape ws = map shape (arch_weights vals)"
    using m assms(3) by (simp add: arch_shapes_def arch_weights_def)
  have "averageWeights vals h net1 net2 = (Inr (length h), h @ [ws])"
    using assms(1,2) e m'
    by (simp add: averageWeights_def createNetwork_def getWeights_def setWeights_def nth_append)
  then show ?thesis using m assms(3) by simp
qed

text \<open>
  Claim C9. For every pair of input networks the fusion leaves the parameter tensors of
  both inputs as they were, indeed every model that existed before the call. For inputs of
  the fixed architecture, as \<open>createNetwork\<close> builds them, the call does not fail: it
  constructs one more model, of the same architecture, and returns the reference to it,
  which is new and so different from both inputs.
\<close>

theorem averageWeights_frame:
  assumes "net1 < length h" and "net2 < length h"
  shows "getWeights (snd (averageWeights vals h net1 net2)) net1 = getWeights h net1
       \<and> getWeights (snd (averageWeights vals h net1 net2)) net2 = getWeights h net2
       \<and> take (length h) (snd (averageWeights vals h net1 net2)) = h
       \<and> (\<forall>merged. fst (averageWeights vals h net1 net2) = Inr merged \<longrightarrow>
            merged = length h \<and> merged \<noteq> net1 \<and> merged \<noteq> net2)
       \<and> (map shape (h ! net1) = arch_shapes \<and> map shape (h ! net2) = arch_shapes \<longrightarrow>
            fst (averageWeights vals h net1 net2) = Inr (length h)
          \<and> length (snd (averageWeights vals h net1 net2)) = length h + 1
          \<and> map shape (snd (averageWeights vals h net1 net2) ! length h) = arch_shapes
          \<and> getWeights (snd (averageWeights vals h net1 net2)) (length h) =
              Inr (snd (averageWeights vals h net1 net2) ! length h))"
proof -
  obtain r h' where r: "averageWeights vals h net1 net2 = (r, h')"
    by (cases "averageWeights vals h net1 net2")
  have "h' = h @ [arch_weights vals] \<or> (\<exists>ws. h' = h @ [ws])"
    using r by (auto simp: averageWeights_def createNetwork_def setWeights_def
        split: sum.splits if_splits)
  then obtain ws where h': "h' = h @ [ws]" by blast
  have m: "merged = length h" if "r = Inr merged" for merged
    using r that by (auto simp: averageWeights_def createNetwork_def split: sum.splits)
  have frame: "getWeights h' net1 = getWeights h net1" "getWeights h' net2 = getWeights h net2"
    "take (length h) h' = h"
    using assms h' by (simp_all add: getWeights_def nth_append)
  have fresh: "\<forall>merged. r = Inr merged \<longrightarrow>
      merged = length h \<and> merged \<noteq> net1 \<and> merged \<noteq> net2"
    using m assms by auto
  have ret: "map shape (h ! net1) = arch_shapes \<and> map shape (h ! net2) = arch_shapes \<longrightarrow>
        r = Inr (length h)
      \<and> length h' = length h + 1
      \<and> map shape (h' ! length h) = arch_shapes
      \<and> getWeights h' (length h) = Inr (h' ! length h)"
  proof
    assume a: "map shape (h ! net1) = arch_shapes \<and> map shape (h ! net2) = arch_shapes"
    from a have a1: "map shape (h ! net1) = arch_shapes"
      and a2: "map shape (h ! net2) = arch_shapes" by simp_all
    from averageWeights_same_shapes [OF assms a1 a2, of vals]
    obtain ws' where e: "averageWeights vals h net1 net2 = (Inr (length h), h @ [ws'])"
      and sh: "map shape ws' = arch_shapes"
      by blast
    from e r have "r = Inr (length h)" "h' = h @ [ws']" by simp_all
    then show "r = Inr (length h)
      \<and> length h' = length h + 1
      \<and> map shape (h' ! length h) = arch_shapes
      \<and> getWeights h' (length h) = Inr (h' ! length h)"
      using sh by (simp add: getWeights_def)
  qed
  show ?thesis
    unfolding r fst_conv snd_conv by (intro conjI frame fresh ret)
qed

theorem averageWeights_frame_witness:
  "getWeights (snd (averageWeights zeroInit twoModels 0 1)) 0 = Inr (arch_weights onesInit)
   \<and> getWeights (snd (averageWeights zeroInit twoModels 0 1)) 1 = Inr (arch_weights threesInit)
   \<and> fst (averageWeights zeroInit twoModels 0 1) = Inr 2
   \<and> length (snd (averageWeights zeroInit twoModels 0 1)) = 3"
proof -
  have h: "0 < length twoModels" "1 < length twoModels"
    by (simp_all add: twoModels_def)
  have a: "map shape (twoModels ! 0) = arch_shapes \<and> map shape (twoModels ! 1) = arch_shapes"
    by (simp add: twoModels_def arch_weights_def arch_shapes_def)
  have l: "length twoModels = 2" by (simp add: twoModels_def)
  have g: "getWeights twoModels 0 = Inr (arch_weights onesInit)"
    "getWeights twoModels 1 = Inr (arch_weights threesInit)"
    by (simp_all add: getWeights_def twoModels_def)
  note t = averageWeights_frame [OF h, of zeroInit]
  from t have c1: "getWeights (snd (averageWeights zeroInit twoModels 0 1)) 0 =
      Inr (arch_weights onesInit)"
    unfolding g by (rule conjunct1)
  from t have c2: "getWeights (snd (averageWeights zeroInit twoModels 0 1)) 1 =
      Inr (arch_weights threesInit)"
    unfolding g by blast
  from t a have "fst (averageWeights zeroInit twoModels 0 1) = Inr (length twoModels)
      \<and> length (snd (averageWeights zeroInit twoModels 0 1)) = length twoModels + 1"
    by blast
  then have c3: "fst (averageWeights zeroInit twoModels 0 1) = Inr 2"
    and c4: "length (snd (averageWeights zeroInit twoModels 0 1)) = 3"
    unfolding l by simp_all
  from c1 c2 c3 c4 show ?thesis by (intro conjI)
qed

section \<open>Properties of the edge selection\<close>

lemma length_connectionWeights:
  "shape w = fn # tn # rest \<Longrightarrow>
   length (connectionWeights s t w) = min s fn * min t tn"
  by (simp add: connectionWeights_def length_concat o_def sum_list_triv Let_def)

lemma absWeight_connectionWeights:
  assumes "shape w = [fn, tn]" "wf_tensor w" "c \<in> set (connectionWeights s t w)"
  shows "\<exists>x \<in> set (tdata w). absWeight c = \<bar>x\<bar>"
proof -
  from assms(1,3) obtain fi ti where f: "fi < min s fn" "ti < min t tn"
    and c: "absWeight c = \<bar>tdata w ! (fi * tn + ti)\<bar>"
    by (auto simp: connectionWeights_def Let_def)
  have "fi * tn + ti < Suc fi * tn" using f(2) by simp
  also have "\<dots> \<le> fn * tn" using f(1) by (intro mult_le_mono1) simp
  finally have "fi * tn + ti < length (tdata w)"
    using assms(1,2) by (simp add: wf_tensor_def)
  then have "tdata w ! (fi * tn + ti) \<in> set (tdata w)" by simp
  with c show ?thesis by blast
qed

lemma ceil_30_percent_le: "nat \<lceil>0.3 * real n\<rceil> \<le> n"
proof -
  have "0.3 * real n \<le> real n" by simp
  then have "\<lceil>0.3 * real n\<rceil> \<le> int n" by (simp add: ceiling_le_iff)
  then show ?thesis by simp
qed

lemma topConnections_spec_k: "topConnections cw s t = spec_k (length cw) s t"
  by (simp add: topConnections_def spec_k_def mult.commute)

lemma spec_k_le_total: "spec_k (s * t) s t \<le> s * t"
proof -
  have "min s t \<le> s * t"
    by (cases "s = 0"; cases "t = 0") (simp_all add: min_def)
  then show ?thesis
    using ceil_30_percent_le [of "s * t"] by (simp add: spec_k_def)
qed

lemma spec_k_ge_one: "1 \<le> s \<Longrightarrow> 1 \<le> t \<Longrightarrow> 1 \<le> spec_k n s t"
  by (simp add: spec_k_def le_max_iff_disj)

lemma js_get_kth:
  "1 \<le> k \<Longrightarrow> k \<le> length xs \<Longrightarrow> js_get xs (int k - 1) = Some (xs ! (k - 1))"
  by (auto simp: js_get_def nat_diff_distrib')

lemma threshold_spec: "threshold cw k = spec_threshold cw k"
proof (cases "1 \<le> k \<and> k \<le> length cw")
  case True
  then have "js_get cw (int k - 1) = Some (cw ! (k - 1))"
    by (auto simp: js_get_def nat_diff_distrib')
  then show ?thesis using True by (simp add: threshold_def spec_threshold_def)
next
  case False
  then have "js_get cw (int k - 1) = None"
    by (auto simp: js_get_def)
  then show ?thesis using False by (auto simp: threshold_def spec_threshold_def)
qed

lemma drawLoop_spec:
  "snd (drawLoop cw k th i drawn) = drawn @ spec_render (k - i) th (drop i cw)"
proof (induction cw k th i drawn rule: drawLoop.induct)
  case (1 cw k th i drawn)
  show ?case
  proof (cases "i < k")
    case False
    then show ?thesis by (simp add: drawLoop.simps [of cw k th i drawn])
  next
    case True
    then obtain d where d: "k - i = Suc d" "k - (i + 1) = d"
      by (cases "k - i") auto
    show ?thesis
    proof (cases "i < length cw")
      case False
      then show ?thesis
        using True d by (simp add: drawLoop.simps [of cw k th i drawn] js_get_def)
    next
      case il: True
      then have g: "js_get cw (int i) = Some (cw ! i)" by (simp add: js_get_def)
      have dr: "drop i cw = cw ! i # drop (i + 1) cw"
        using il by (simp add: Cons_nth_drop_Suc)
      show ?thesis
      proof (cases "absWeight (cw ! i) < th * 0.5")
        case True
        then show ?thesis
          using \<open>i < k\<close> g d dr by (simp add: drawLoop.simps [of cw k th i drawn])
      next
        case False
        with "1.IH" [OF \<open>i < k\<close> g] 
        have "snd (drawLoop cw k th (i + 1) (drawn @ [cw ! i])) =
                (drawn @ [cw ! i]) @ spec_render (k - (i + 1)) th (drop (i + 1) cw)"
          by simp
        then show ?thesis
          using \<open>i < k\<close> g d dr False by (simp add: drawLoop.simps [of cw k th i drawn])
      qed
    qed
  qed
qed

lemma drawLoop_no_error:
  "k \<le> length cw \<Longrightarrow> fst (drawLoop cw k th i drawn) = None"
proof (induction cw k th i drawn rule: drawLoop.induct)
  case (1 cw k th i drawn)
  show ?case
  proof (cases "i < k")
    case False
    then show ?thesis by (simp add: drawLoop.simps [of cw k th i drawn])
  next
    case True
    then have g: "js_get cw (int i) = Some (cw ! i)"
      using "1.prems" by (simp add: js_get_def)
    show ?thesis
    proof (cases "absWeight (cw ! i) < th * 0.5")
      case True
      then show ?thesis
        using \<open>i < k\<close> g by (simp add: drawLoop.simps [of cw k th i drawn])
    next
      case False
      with "1.IH" [OF \<open>i < k\<close> g] "1.prems"
      have "fst (drawLoop cw k th (i + 1) (drawn @ [cw ! i])) = None" by simp
      then show ?thesis
        using \<open>i < k\<close> g False by (simp add: drawLoop.simps [of cw k th i drawn])
    qed
  qed
qed

lemma sortConnections_descending:
  "sorted_wrt (\<lambda>a b. absWeight b \<le> absWeight a) (sortConnections cw)"
proof -
  have "sorted (map (\<lambda>c. - absWeight c) (sort_key (\<lambda>c. - absWeight c) cw))"
    by (rule sorted_sort_key)
  then show ?thesis by (simp add: sortConnections_def sorted_map)
qed

lemma spec_render_sublist:
  "\<exists>n. spec_render k th cs = take n cs"
proof (induction k th cs rule: spec_render.induct)
  case (1 th ranked)
  show ?case by (rule exI [of _ 0]) simp
next
  case (2 k th)
  show ?case by simp
next
  case (3 k th c ranked)
  show ?case
  proof (cases "absWeight c < th / 2")
    case True
    have "spec_render (Suc k) th (c # ranked) = take 0 (c # ranked)" using True by simp
    then show ?thesis by (rule exI)
  next
    case False
    with 3 obtain n where "spec_render k th ranked = take n ranked" by blast
    then show ?thesis using False by (intro exI [of _ "Suc n"]) simp
  qed
qed

lemma spec_render_all:
  "\<forall>c \<in> set cs. \<not> absWeight c < th / 2 \<Longrightarrow> spec_render k th cs = take k cs"
  by (induction k th cs rule: spec_render.induct) simp_all

lemma spec_render_prefix:
  "\<forall>c \<in> set (take k cs). \<not> absWeight c < th / 2 \<Longrightarrow> spec_render k th cs = take k cs"
  by (induction k th cs rule: spec_render.induct) simp_all

lemma absWeight_nonneg:
  "c \<in> set (connectionWeights s t w) \<Longrightarrow> 0 \<le> absWeight c"
  by (auto simp: connectionWeights_def Let_def split: list.splits)

text \<open>
  Within the first \<open>k\<close> ranked connections none is below half the threshold, since
  the threshold is the smallest of their magnitudes: the loop always strokes the first
  \<open>k\<close> ranked connections, or all of them when there are fewer.
\<close>

lemma early_stop_never_fires:
  "snd (drawLayerConnections s t w) =
     take (topConnections (sortConnections (connectionWeights s t w)) s t)
       (sortConnections (connectionWeights s t w))"
proof -
  let ?ranked = "sortConnections (connectionWeights s t w)"
  let ?k = "spec_k (length ?ranked) s t"
  let ?th = "spec_threshold ?ranked ?k"
  have nn: "0 \<le> absWeight c" if "c \<in> set ?ranked" for c
    using that absWeight_nonneg [of c s t w] by (simp add: sortConnections_def)
  have d: "snd (drawLayerConnections s t w) = spec_render ?k ?th ?ranked"
    by (simp add: drawLayerConnections_def Let_def drawLoop_spec topConnections_spec_k
        threshold_spec)
  have "\<not> absWeight c < ?th / 2" if c: "c \<in> set (take ?k ?ranked)" for c
  proof (cases "1 \<le> ?k \<and> ?k \<le> length ?ranked")
    case True
    then have kl: "?k - 1 < length ?ranked" by linarith
    from c obtain i where i: "i < ?k" "i < length ?ranked" "c = ?ranked ! i"
      by (auto simp: in_set_conv_nth)
    have "sorted (map (\<lambda>c. - absWeight c) ?ranked)"
      unfolding sortConnections_def by (rule sorted_sort_key)
    then have "map (\<lambda>c. - absWeight c) ?ranked ! i \<le> map (\<lambda>c. - absWeight c) ?ranked ! (?k - 1)"
      using i(1) kl by (intro sorted_nth_mono) simp_all
    then have ge: "absWeight (?ranked ! (?k - 1)) \<le> absWeight c"
      using i kl by simp
    have th: "?th = absWeight (?ranked ! (?k - 1))"
      using True by (simp add: spec_threshold_def)
    have "0 \<le> ?th" unfolding th using kl by (intro nn nth_mem)
    then show ?thesis using ge th by linarith
  next
    case False
    then have "?th = 0" by (auto simp: spec_threshold_def)
    moreover have "0 \<le> absWeight c" using c by (intro nn) (rule in_set_takeD)
    ultimately show ?thesis by simp
  qed
  then have "spec_render ?k ?th ?ranked = take ?k ?ranked"
    by (intro spec_render_prefix) blast
  then show ?thesis using d by (simp add: topConnections_spec_k)
qed

lemma ranked_total:
  assumes "shape w = [fn, tn]" "s \<le> fn" "t \<le> tn"
  shows "length (sortConnections (connectionWeights s t w)) = s * t"
  using assms length_connectionWeights [of w fn tn "[]" s t]
  by (simp add: sortConnections_def min_absorb1)

lemma ranked_kernel23:
  "sortConnections (connectionWeights 2 3 kernel23) =
     [\<lparr>fromIdx = 0, toIdx = 1, weight = - 5, absWeight = 5\<rparr>,
      \<lparr>fromIdx = 1, toIdx = 2, weight = - 4, absWeight = 4\<rparr>,
      \<lparr>fromIdx = 1, toIdx = 1, weight = 3, absWeight = 3\<rparr>,
      \<lparr>fromIdx = 0, toIdx = 2, weight = 2, absWeight = 2\<rparr>,
      \<lparr>fromIdx = 0, toIdx = 0, weight = 1, absWeight = 1\<rparr>,
      \<lparr>fromIdx = 1, toIdx = 0, weight = 1 / 2, absWeight = 1 / 2\<rparr>]"
  by (simp add: sortConnections_def connectionWeights_def kernel23_def Let_def upt_rec numeral_nat)

text \<open>
  Claim C6. The connections are ranked in descending order of magnitude, and the drawing
  loop strokes them in that order until either \<open>k\<close> are drawn or the next one falls
  below half the threshold, the magnitude of the \<open>k\<close>-th ranked connection (zero when
  there is none): the loop of the source draws exactly what the specification's rule
  draws. When the kernel covers the two layers, no exception ends the loop.
\<close>

theorem render_order_and_stop:
  "snd (drawLayerConnections s t w) =
     spec_render (spec_k (length (sortConnections (connectionWeights s t w))) s t)
       (spec_threshold (sortConnections (connectionWeights s t w))
          (spec_k (length (sortConnections (connectionWeights s t w))) s t))
       (sortConnections (connectionWeights s t w))
   \<and> sorted_wrt (\<lambda>a b. absWeight b \<le> absWeight a) (sortConnections (connectionWeights s t w))
   \<and> set (sortConnections (connectionWeights s t w)) = set (connectionWeights s t w)
   \<and> length (sortConnections (connectionWeights s t w)) = length (connectionWeights s t w)
   \<and> sorted_wrt (\<lambda>a b. absWeight b \<le> absWeight a) (snd (drawLayerConnections s t w))
   \<and> (shape w = [fn, tn] \<and> s \<le> fn \<and> t \<le> tn \<longrightarrow> fst (drawLayerConnections s t w) = None)"
proof -
  let ?ranked = "sortConnections (connectionWeights s t w)"
  let ?k = "spec_k (length ?ranked) s t"
  have a: "snd (drawLayerConnections s t w) = spec_render ?k (spec_threshold ?ranked ?k) ?ranked"
    by (simp add: drawLayerConnections_def Let_def drawLoop_spec topConnections_spec_k
        threshold_spec)
  have b: "sorted_wrt (\<lambda>a b. absWeight b \<le> absWeight a) ?ranked"
    by (rule sortConnections_descending)
  have c: "set ?ranked = set (connectionWeights s t w)"
    "length ?ranked = length (connectionWeights s t w)"
    by (simp_all add: sortConnections_def)
  obtain n where "snd (drawLayerConnections s t w) = take n ?ranked"
    using a spec_render_sublist by metis
  with b have d: "sorted_wrt (\<lambda>a b. absWeight b \<le> absWeight a) (snd (drawLayerConnections s t w))"
    by (simp add: sorted_wrt_take)
  have e: "fst (drawLayerConnections s t w) = None" if "shape w = [fn, tn]" "s \<le> fn" "t \<le> tn"
  proof -
    have "length ?ranked = s * t"
      using that length_connectionWeights [of w fn tn "[]" s t] by (simp add: c min_absorb1)
    then have "?k \<le> length ?ranked" using spec_k_le_total [of s t] by simp
    then show ?thesis
      by (simp add: drawLayerConnections_def Let_def topConnections_spec_k drawLoop_no_error)
  qed
  show ?thesis using a b c d e by blast
qed

theorem render_order_and_stop_witness:
  "fst (drawLayerConnections 2 3 kernel23) = None
   \<and> map weight (snd (drawLayerConnections 2 3 kernel23)) = [- 5, - 4]"
proof -
  have l: "length (sortConnections (connectionWeights 2 3 kernel23)) = 6"
    by (simp add: ranked_kernel23)
  note t = render_order_and_stop [of 2 3 kernel23 2 3, unfolded l]
  have h: "shape kernel23 = [2, 3] \<and> (2::nat) \<le> 2 \<and> (3::nat) \<le> 3"
    by (simp add: kernel23_def)
  from t h have a: "fst (drawLayerConnections 2 3 kernel23) = None" by blast
  from t have "snd (drawLayerConnections 2 3 kernel23) =
     spec_render (spec_k 6 2 3)
       (spec_threshold (sortConnections (connectionWeights 2 3 kernel23)) (spec_k 6 2 3))
       (sortConnections (connectionWeights 2 3 kernel23))"
    by blast
  moreover have "spec_k 6 2 3 = Suc (Suc 0)"
    by (simp add: spec_k_def)
  moreover have "spec_threshold (sortConnections (connectionWeights 2 3 kernel23)) (Suc (Suc 0)) = 4"
    unfolding ranked_kernel23 by (simp add: spec_threshold_def)
  ultimately have "snd (drawLayerConnections 2 3 kernel23) =
     spec_render (Suc (Suc 0)) 4 (sortConnections (connectionWeights 2 3 kernel23))"
    by simp
  then have "map weight (snd (drawLayerConnections 2 3 kernel23)) = [- 5, - 4]"
    unfolding ranked_kernel23 by simp
  with a show ?thesis by (rule conjI)
qed

text \<open>
  Claim C5. For a pair of adjacent layers with \<open>s\<close> source and \<open>t\<close> target nodes, whose
  kernel covers both layers, the selection count is
  \<open>k = max (ceil (0.3 * total)) (min s t)\<close> with \<open>total = s * t\<close>; when all entries of
  the kernel have the same magnitude, exactly \<open>k\<close> connections are drawn, so at least
  \<open>min s t\<close>.
\<close>

theorem floor_guarantee:
  assumes "shape w = [fn, tn]" and "wf_tensor w" and "s \<le> fn" and "t \<le> tn"
  shows "length (connectionWeights s t w) = s * t
       \<and> topConnections (sortConnections (connectionWeights s t w)) s t =
           max (nat \<lceil>0.3 * real (s * t)\<rceil>) (min s t)
       \<and> ((\<forall>x \<in> set (tdata w). \<bar>x\<bar> = m) \<longrightarrow>
            fst (drawLayerConnections s t w) = None
          \<and> length (snd (drawLayerConnections s t w)) = max (nat \<lceil>0.3 * real (s * t)\<rceil>) (min s t)
          \<and> min s t \<le> length (snd (drawLayerConnections s t w)))"
proof -
  let ?ranked = "sortConnections (connectionWeights s t w)"
  let ?k = "spec_k (s * t) s t"
  have tot: "length ?ranked = s * t"
    using assms(1,3,4) by (rule ranked_total)
  then have a: "length (connectionWeights s t w) = s * t"
    by (simp add: sortConnections_def)
  have k: "topConnections ?ranked s t = ?k"
    by (simp add: topConnections_spec_k tot)
  have kd: "?k = max (nat \<lceil>0.3 * real (s * t)\<rceil>) (min s t)"
    by (simp add: spec_k_def)
  have kle: "?k \<le> length ?ranked"
    using spec_k_le_total [of s t] tot by simp
  have ne: "fst (drawLayerConnections s t w) = None"
    using kle by (simp add: drawLayerConnections_def Let_def k drawLoop_no_error)
  have dr: "snd (drawLayerConnections s t w) = spec_render ?k (spec_threshold ?ranked ?k) ?ranked"
    by (simp add: drawLayerConnections_def Let_def drawLoop_spec k threshold_spec)
  have len: "length (snd (drawLayerConnections s t w)) = ?k"
    if eq: "\<forall>x \<in> set (tdata w). \<bar>x\<bar> = m"
  proof -
    have am: "absWeight c = m" if "c \<in> set ?ranked" for c
    proof -
      from that have "c \<in> set (connectionWeights s t w)" by (simp add: sortConnections_def)
      from absWeight_connectionWeights [OF assms(1,2) this] eq show ?thesis by auto
    qed
    have "\<not> absWeight c < spec_threshold ?ranked ?k / 2" if c: "c \<in> set ?ranked" for c
    proof -
      from c have "c \<in> set (connectionWeights s t w)" by (simp add: sortConnections_def)
      from absWeight_connectionWeights [OF assms(1,2) this]
      obtain x where "absWeight c = \<bar>x\<bar>" by blast
      with am [OF c] have m0: "0 \<le> m" by simp
      have "spec_threshold ?ranked ?k = m \<or> spec_threshold ?ranked ?k = 0"
      proof (cases "1 \<le> ?k \<and> ?k \<le> length ?ranked")
        case True
        then have "?k - 1 < length ?ranked" by linarith
        then have "?ranked ! (?k - 1) \<in> set ?ranked" by (rule nth_mem)
        then have "absWeight (?ranked ! (?k - 1)) = m" by (rule am)
        then show ?thesis using True by (simp add: spec_threshold_def)
      next
        case False
        then show ?thesis by (auto simp: spec_threshold_def)
      qed
      then show ?thesis using am [OF c] m0 by auto
    qed
    then have "spec_render ?k (spec_threshold ?ranked ?k) ?ranked = take ?k ?ranked"
      by (intro spec_render_all) blast
    then show ?thesis using dr kle by simp
  qed
  have "min s t \<le> ?k" by (simp add: spec_k_def)
  then show ?thesis using a k kd ne len by simp
qed

theorem floor_guarantee_witness:
  "fst (drawLayerConnections 2 3 flat23) = None
   \<and> length (snd (drawLayerConnections 2 3 flat23)) = 2
   \<and> min 2 3 \<le> length (snd (drawLayerConnections 2 3 flat23))"
proof -
  have h: "shape flat23 = [2, 3]" "wf_tensor flat23" "(2::nat) \<le> 2" "(3::nat) \<le> 3"
    by (simp_all add: flat23_def wf_tensor_def)
  have e: "\<forall>x \<in> set (tdata flat23). \<bar>x\<bar> = 2"
    by (simp add: flat23_def)
  note t = floor_guarantee [OF h, of 2]
  from t e have "fst (drawLayerConnections 2 3 flat23) = None
          \<and> length (snd (drawLayerConnections 2 3 flat23)) = max (nat \<lceil>0.3 * real (2 * 3 :: nat)\<rceil>) (min 2 3)
          \<and> min 2 3 \<le> length (snd (drawLayerConnections 2 3 flat23))"
    by blast
  then show ?thesis by simp
qed

text \<open>
  Claim C10. For a pair of adjacent layers with at least one source and one target node,
  whose kernel covers both layers, \<open>k\<close> is at least one and at most
  \<open>total = s * t\<close>: the \<open>k\<close>-th ranked connection exists, the lookup is not
  \<open>undefined\<close>, and the threshold is the magnitude of that connection.
\<close>

theorem kth_ranked_exists:
  assumes "shape w = [fn, tn]" and "1 \<le> s" and "1 \<le> t" and "s \<le> fn" and "t \<le> tn"
  shows "length (sortConnections (connectionWeights s t w)) = s * t
       \<and> topConnections (sortConnections (connectionWeights s t w)) s t =
           max (nat \<lceil>0.3 * real (s * t)\<rceil>) (min s t)
       \<and> 1 \<le> topConnections (sortConnections (connectionWeights s t w)) s t
       \<and> topConnections (sortConnections (connectionWeights s t w)) s t \<le> s * t
       \<and> js_get (sortConnections (connectionWeights s t w))
            (int (topConnections (sortConnections (connectionWeights s t w)) s t) - 1) =
           Some (sortConnections (connectionWeights s t w) !
                  (topConnections (sortConnections (connectionWeights s t w)) s t - 1))
       \<and> threshold (sortConnections (connectionWeights s t w))
            (topConnections (sortConnections (connectionWeights s t w)) s t) =
           absWeight (sortConnections (connectionWeights s t w) !
                  (topConnections (sortConnections (connectionWeights s t w)) s t - 1))"
proof -
  let ?ranked = "sortConnections (connectionWeights s t w)"
  let ?k = "topConnections ?ranked s t"
  have tot: "length ?ranked = s * t"
    using assms(1,4,5) by (rule ranked_total)
  have k: "?k = spec_k (s * t) s t"
    by (simp add: topConnections_spec_k tot)
  have kd: "?k = max (nat \<lceil>0.3 * real (s * t)\<rceil>) (min s t)"
    by (simp add: k spec_k_def)
  have k1: "1 \<le> ?k" unfolding k using assms(2,3) by (rule spec_k_ge_one)
  have kle: "?k \<le> s * t" unfolding k by (rule spec_k_le_total)
  have g: "js_get ?ranked (int ?k - 1) = Some (?ranked ! (?k - 1))"
    using k1 kle tot by (intro js_get_kth) simp_all
  have th: "threshold ?ranked ?k = absWeight (?ranked ! (?k - 1))"
    by (simp add: threshold_def g)
  show ?thesis using tot kd k1 kle g th by blast
qed

theorem kth_ranked_exists_witness:
  "topConnections (sortConnections (connectionWeights 2 3 kernel23)) 2 3 = 2
   \<and> threshold (sortConnections (connectionWeights 2 3 kernel23))
        (topConnections (sortConnections (connectionWeights 2 3 kernel23)) 2 3) = 4"
proof -
  have h: "shape kernel23 = [2, 3]" "(1::nat) \<le> 2" "(1::nat) \<le> 3" "(2::nat) \<le> 2" "(3::nat) \<le> 3"
    by (simp_all add: kernel23_def)
  note t = kth_ranked_exists [OF h]
  from t have k: "topConnections (sortConnections (connectionWeights 2 3 kernel23)) 2 3 = 2"
    by simp
  from t have "threshold (sortConnections (connectionWeights 2 3 kernel23))
        (topConnections (sortConnections (connectionWeights 2 3 kernel23)) 2 3) =
      absWeight (sortConnections (connectionWeights 2 3 kernel23) !
        (topConnections (sortConnections (connectionWeights 2 3 kernel23)) 2 3 - 1))"
    by blast
  then have "threshold (sortConnections (connectionWeights 2 3 kernel23))
        (topConnections (sortConnections (connectionWeights 2 3 kernel23)) 2 3) = 4"
    unfolding k by (simp add: ranked_kernel23)
  with k show ?thesis by (rule conjI)
qed

section \<open>Properties of the training session\<close>

subsection \<open>Histories\<close>

lemma keeps_refl: "keeps_and_appends h h []"
  by (simp add: keeps_and_appends_def)

lemma keeps_snoc: "keeps_and_appends h (h @ [st]) [epoch st]"
  by (simp add: keeps_and_appends_def)

lemma keeps_trans:
  assumes "keeps_and_appends h h' e1" "keeps_and_appends h' h'' e2"
  shows "keeps_and_appends h h'' (e1 @ e2)"
proof -
  obtain d1 where d1: "h' = h @ d1" "map epoch d1 = e1"
    using assms(1) unfolding keeps_and_appends_def by (metis append_take_drop_id)
  obtain d2 where d2: "h'' = h' @ d2" "map epoch d2 = e2"
    using assms(2) unfolding keeps_and_appends_def by (metis append_take_drop_id)
  show ?thesis
    using d1 d2 by (simp add: keeps_and_appends_def)
qed

lemma keeps_eq: "keeps_and_appends h h' [] \<Longrightarrow> h' = h"
  unfolding keeps_and_appends_def
  by (metis append_take_drop_id map_is_Nil_conv append_Nil2)

lemma keeps_from_empty: "keeps_and_appends [] h' eps \<Longrightarrow> map epoch h' = eps"
  by (simp add: keeps_and_appends_def)

subsection \<open>The steps of one epoch on the generated datasets\<close>

lemma calculateAccuracy_column:
  "shape targets = [n, 1] \<Longrightarrow>
   \<exists>acc. calculateAccuracy \<lparr>shape = [n, 1], tdata = ps\<rparr> targets = Inr acc"
  using calculateAccuracy_same_shape [of "\<lparr>shape = [n, 1], tdata = ps\<rparr>" n "[1]" targets]
  by simp

lemma meanSquaredError_column:
  "shape labels = [n, 1] \<Longrightarrow>
   \<exists>l. meanSquaredError labels \<lparr>shape = [n, 1], tdata = ps\<rparr> = Inr l"
  by (simp add: meanSquaredError_def tf_sub_def tf_binary_same_shape)

lemma predict_rows:
  "shape x = n # rest \<Longrightarrow> predict (Some p) x = Some \<lparr>shape = [n, 1], tdata = map p [0..<n]\<rparr>"
  by (simp add: predict_def)

lemma predict_None [simp]: "predict None x = None"
  by (simp add: predict_def)

lemma arch_weights_shapes: "map shape (arch_weights w) = arch_shapes"
  by (simp add: arch_weights_def arch_shapes_def)

lemma arch_update:
  "n < length h \<Longrightarrow> map shape (h ! n) = arch_shapes \<Longrightarrow>
   map shape (h[a := arch_weights w] ! n) = arch_shapes"
  by (cases "n = a") (simp_all add: arch_weights_shapes)

lemma trainAddition_effect:
  assumes "trainAddition ep a generateAdditionData env s = (r, s')"
  shows "(r = None) = addition_ok env"
    and "r \<noteq> None \<Longrightarrow> r = Some FitFailed \<or> r = Some PredictFailed"
    and "keeps_and_appends (additionStats s) (additionStats s') (if addition_ok env then [ep + 1] else [])"
    and "multiplicationStats s' = multiplicationStats s"
    and "mergedStats s' = mergedStats s"
    and "isTraining s' = isTraining s"
    and "currentEpoch s' = currentEpoch s"
    and "length (tf_heap s') = length (tf_heap s)"
    and "r = None \<Longrightarrow> a < length (tf_heap s) \<Longrightarrow> map shape (tf_heap s' ! a) = arch_shapes"
    and "n < length (tf_heap s) \<Longrightarrow> map shape (tf_heap s ! n) = arch_shapes \<Longrightarrow>
         map shape (tf_heap s' ! n) = arch_shapes"
proof -
  have "(r = None) = addition_ok env
    \<and> (r \<noteq> None \<longrightarrow> r = Some FitFailed \<or> r = Some PredictFailed)
    \<and> keeps_and_appends (additionStats s) (additionStats s') (if addition_ok env then [ep + 1] else [])
    \<and> multiplicationStats s' = multiplicationStats s
    \<and> mergedStats s' = mergedStats s
    \<and> isTraining s' = isTraining s
    \<and> currentEpoch s' = currentEpoch s
    \<and> length (tf_heap s') = length (tf_heap s)
    \<and> (r = None \<longrightarrow> a < length (tf_heap s) \<longrightarrow> map shape (tf_heap s' ! a) = arch_shapes)
    \<and> (n < length (tf_heap s) \<longrightarrow> map shape (tf_heap s ! n) = arch_shapes \<longrightarrow>
         map shape (tf_heap s' ! n) = arch_shapes)"
  proof (cases "addFit env")
    case None
    then show ?thesis
      using assms by (auto simp: trainAddition_def addition_ok_def keeps_refl)
  next
    case (Some lw)
    obtain l w where lw: "lw = (l, w)" by (cases lw)
    show ?thesis
    proof (cases "addPredict env")
      case None
      have sh: "map shape (arch_weights w) = arch_shapes"
        by (simp add: arch_weights_def arch_shapes_def)
      from None show ?thesis
        using assms Some lw sh
        by (auto simp: trainAddition_def addition_ok_def keeps_refl Let_def arch_update)
    next
      case (Some p)
      have pr: "predict (Some p) (inputs generateAdditionData) =
                  Some \<lparr>shape = [100, 1], tdata = map p [0..<100]\<rparr>"
        using generated_input_shapes(1) by (rule predict_rows)
      obtain acc where acc: "calculateAccuracy \<lparr>shape = [100, 1], tdata = map p [0..<100]\<rparr>
            (outputs generateAdditionData) = Inr acc"
        using calculateAccuracy_column [OF generated_output_shapes(1)] by blast
      have ok: "addition_ok env"
        using Some \<open>addFit env = Some lw\<close> by (simp add: addition_ok_def)
      have res: "r = None" "s' = s\<lparr>tf_heap := (tf_heap s)[a := arch_weights w],
                additionStats := additionStats s @
                  [\<lparr>epoch = ep + 1, loss = l, accuracy = acc,
                    testLoss = None, testAccuracy = None\<rparr>]\<rparr>"
        using assms \<open>addFit env = Some lw\<close> lw Some pr acc
        by (simp_all add: trainAddition_def Let_def)
      have k: "keeps_and_appends (additionStats s) (additionStats s') [ep + 1]"
        using keeps_snoc [of "additionStats s" "\<lparr>epoch = ep + 1, loss = l, accuracy = acc,
                    testLoss = None, testAccuracy = None\<rparr>"] res(2) by simp
      have sh: "map shape (arch_weights w) = arch_shapes"
        by (simp add: arch_weights_def arch_shapes_def)
      show ?thesis
        using res ok k sh by (simp add: arch_update)
    qed
  qed
  then show "(r = None) = addition_ok env"
    and "r \<noteq> None \<Longrightarrow> r = Some FitFailed \<or> r = Some PredictFailed"
    and "keeps_and_appends (additionStats s) (additionStats s') (if addition_ok env then [ep + 1] else [])"
    and "multiplicationStats s' = multiplicationStats s"
    and "mergedStats s' = mergedStats s"
    and "isTraining s' = isTraining s"
    and "currentEpoch s' = currentEpoch s"
    and "length (tf_heap s') = length (tf_heap s)"
    and "r = None \<Longrightarrow> a < length (tf_heap s) \<Longrightarrow> map shape (tf_heap s' ! a) = arch_shapes"
    and "n < length (tf_heap s) \<Longrightarrow> map shape (tf_heap s ! n) = arch_shapes \<Longrightarrow>
         map shape (tf_heap s' ! n) = arch_shapes"
    by blast+
qed

lemma trainMultiplication_effect:
  assumes "trainMultiplication ep a generateMultiplicationData env s = (r, s')"
  shows "(r = None) = multiplication_ok env"
    and "r \<noteq> None \<Longrightarrow> r = Some FitFailed \<or> r = Some PredictFailed"
    and "keeps_and_appends (multiplicationStats s) (multiplicationStats s') (if multiplication_ok env then [ep + 1] else [])"
    and "additionStats s' = additionStats s"
    and "mergedStats s' = mergedStats s"
    and "isTraining s' = isTraining s"
    and "currentEpoch s' = currentEpoch s"
    and "length (tf_heap s') = length (tf_heap s)"
    and "r = None \<Longrightarrow> a < length (tf_heap s) \<Longrightarrow> map shape (tf_heap s' ! a) = arch_shapes"
    and "n < length (tf_heap s) \<Longrightarrow> map shape (tf_heap s ! n) = arch_shapes \<Longrightarrow>
         map shape (tf_heap s' ! n) = arch_shapes"
proof -
  have "(r = None) = multiplication_ok env
    \<and> (r \<noteq> None \<longrightarrow> r = Some FitFailed \<or> r = Some PredictFailed)
    \<and> keeps_and_appends (multiplicationStats s) (multiplicationStats s') (if multiplication_ok env then [ep + 1] else [])
    \<and> additionStats s' = additionStats s
    \<and> mergedStats s' = mergedStats s
    \<and> isTraining s' = isTraining s
    \<and> currentEpoch s' = currentEpoch s
    \<and> length (tf_heap s') = length (tf_heap s)
    \<and> (r = None \<longrightarrow> a < length (tf_heap s) \<longrightarrow> map shape (tf_heap s' ! a) = arch_shapes)
    \<and> (n < length (tf_heap s) \<longrightarrow> map shape (tf_heap s ! n) = arch_shapes \<longrightarrow>
         map shape (tf_heap s' ! n) = arch_shapes)"
  proof (cases "multFit env")
    case None
    then show ?thesis
      using assms by (auto simp: trainMultiplication_def multiplication_ok_def keeps_refl)
  next
    case (Some lw)
    obtain l w where lw: "lw = (l, w)" by (cases lw)
    show ?thesis
    proof (cases "multPredict env")
      case None
      have sh: "map shape (arch_weights w) = arch_shapes"
        by (simp add: arch_weights_def arch_shapes_def)
      from None show ?thesis
        using assms Some lw sh
        by (auto simp: trainMultiplication_def multiplication_ok_def keeps_refl Let_def arch_update)
    next
      case (Some p)
      have pr: "predict (Some p) (inputs generateMultiplicationData) =
                  Some \<lparr>shape = [100, 1], tdata = map p [0..<100]\<rparr>"
        using generated_input_shapes(2) by (rule predict_rows)
      obtain acc where acc: "calculateAccuracy \<lparr>shape = [100, 1], tdata = map p [0..<100]\<rparr>
            (outputs generateMultiplicationData) = Inr acc"
        using calculateAccuracy_column [OF generated_output_shapes(2)] by blast
      have ok: "multiplication_ok env"
        using Some \<open>multFit env = Some lw\<close> by (simp add: multiplication_ok_def)
      have res: "r = None" "s' = s\<lparr>tf_heap := (tf_heap s)[a := arch_weights w],
                multiplicationStats := multiplicationStats s @
                  [\<lparr>epoch = ep + 1, loss = l, accuracy = acc,
                    testLoss = None, testAccuracy = None\<rparr>]\<rparr>"
        using assms \<open>multFit env = Some lw\<close> lw Some pr acc
        by (simp_all add: trainMultiplication_def Let_def)
      have k: "keeps_and_appends (multiplicationStats s) (multiplicationStats s') [ep + 1]"
        using keeps_snoc [of "multiplicationStats s" "\<lparr>epoch = ep + 1, loss = l, accuracy = acc,
                    testLoss = None, testAccuracy = None\<rparr>"] res(2) by simp
      have sh: "map shape (arch_weights w) = arch_shapes"
        by (simp add: arch_weights_def arch_shapes_def)
      show ?thesis
        using res ok k sh by (simp add: arch_update)
    qed
  qed
  then show "(r = None) = multiplication_ok env"
    and "r \<noteq> None \<Longrightarrow> r = Some FitFailed \<or> r = Some PredictFailed"
    and "keeps_and_appends (multiplicationStats s) (multiplicationStats s') (if multiplication_ok env then [ep + 1] else [])"
    and "additionStats s' = additionStats s"
    and "mergedStats s' = mergedStats s"
    and "isTraining s' = isTraining s"
    and "currentEpoch s' = currentEpoch s"
    and "length (tf_heap s') = length (tf_heap s)"
    and "r = None \<Longrightarrow> a < length (tf_heap s) \<Longrightarrow> map shape (tf_heap s' ! a) = arch_shapes"
    and "n < length (tf_heap s) \<Longrightarrow> map shape (tf_heap s ! n) = arch_shapes \<Longrightarrow>
         map shape (tf_heap s' ! n) = arch_shapes"
    by blast+
qed

lemma testMerged_effect:
  assumes "a < length (tf_heap s)" "m < length (tf_heap s)"
    and "map shape (tf_heap s ! a) = arch_shapes" "map shape (tf_heap s ! m) = arch_shapes"
    and "testMerged ep a m c generateDivisionData env s = (r, s')"
  shows "(r = None) = merged_ok c env"
    and "r \<noteq> None \<Longrightarrow> r = Some PredictFailed \<or> r = Some DisposeFailed"
    and "keeps_and_appends (mergedStats s) (mergedStats s')
           (if merged_ok c env then [ep + 1] else [])"
    and "additionStats s' = additionStats s"
    and "multiplicationStats s' = multiplicationStats s"
    and "isTraining s' = isTraining s"
    and "currentEpoch s' = currentEpoch s"
    and "length (tf_heap s') = length (tf_heap s) + 1"
proof -
  obtain ws where
    av: "averageWeights (mergedInit env) (tf_heap s) a m =
           (Inr (length (tf_heap s)), tf_heap s @ [ws])"
    using averageWeights_same_shapes [OF assms(1-4), of "mergedInit env"] by blast
  let ?s1 = "s\<lparr>tf_heap := tf_heap s @ [ws], mergedNet := Some (length (tf_heap s))\<rparr>"
  have "(r = None) = merged_ok c env
    \<and> (r \<noteq> None \<longrightarrow> r = Some PredictFailed \<or> r = Some DisposeFailed)
    \<and> keeps_and_appends (mergedStats s) (mergedStats s')
           (if merged_ok c env then [ep + 1] else [])
    \<and> additionStats s' = additionStats s
    \<and> multiplicationStats s' = multiplicationStats s
    \<and> isTraining s' = isTraining s
    \<and> currentEpoch s' = currentEpoch s
    \<and> length (tf_heap s') = length (tf_heap s) + 1"
  proof (cases "c \<noteq> None \<and> \<not> disposeMerged env")
    case True
    then show ?thesis
      using assms(5) av by (auto simp: testMerged_def merged_ok_def keeps_refl)
  next
    case disposed: False
    show ?thesis
    proof (cases "divPredict env")
      case None
      then show ?thesis
        using assms(5) av disposed by (auto simp: testMerged_def Let_def merged_ok_def keeps_refl)
    next
      case (Some p)
      have pr: "predict (Some p) (inputs generateDivisionData) =
                  Some \<lparr>shape = [81, 1], tdata = map p [0..<81]\<rparr>"
        using generated_input_shapes(3) by (rule predict_rows)
      obtain acc where acc: "calculateAccuracy \<lparr>shape = [81, 1], tdata = map p [0..<81]\<rparr>
            (outputs generateDivisionData) = Inr acc"
        using calculateAccuracy_column [OF generated_output_shapes(3)] by blast
      obtain l where l: "meanSquaredError (outputs generateDivisionData)
            \<lparr>shape = [81, 1], tdata = map p [0..<81]\<rparr> = Inr l"
        using meanSquaredError_column [OF generated_output_shapes(3)] by blast
      have "r = None \<and> s' = ?s1\<lparr>mergedStats := mergedStats s @
                    [\<lparr>epoch = ep + 1, loss = l, accuracy = acc,
                      testLoss = Some l, testAccuracy = Some acc\<rparr>]\<rparr>"
        using assms(5) av Some pr acc l disposed
        by (cases c) (simp_all add: testMerged_def Let_def)
      then have res: "r = None" "s' = ?s1\<lparr>mergedStats := mergedStats s @
                    [\<lparr>epoch = ep + 1, loss = l, accuracy = acc,
                      testLoss = Some l, testAccuracy = Some acc\<rparr>]\<rparr>"
        by simp_all
      have k: "keeps_and_appends (mergedStats s) (mergedStats s') [ep + 1]"
        using keeps_snoc [of "mergedStats s" "\<lparr>epoch = ep + 1, loss = l, accuracy = acc,
                      testLoss = Some l, testAccuracy = Some acc\<rparr>"] res(2) by simp
      have ok: "merged_ok c env"
        using Some disposed by (auto simp: merged_ok_def)
      show ?thesis using res k ok by simp
    qed
  qed
  then show "(r = None) = merged_ok c env"
    and "r \<noteq> None \<Longrightarrow> r = Some PredictFailed \<or> r = Some DisposeFailed"
    and "keeps_and_appends (mergedStats s) (mergedStats s')
           (if merged_ok c env then [ep + 1] else [])"
    and "additionStats s' = additionStats s"
    and "multiplicationStats s' = multiplicationStats s"
    and "isTraining s' = isTraining s"
    and "currentEpoch s' = currentEpoch s"
    and "length (tf_heap s') = length (tf_heap s) + 1"
    by blast+
qed

lemma epochBody_effect:
  assumes "a < length (tf_heap s)" "m < length (tf_heap s)"
    and "epochBody ep a m c generateAdditionData generateMultiplicationData generateDivisionData
           env s = (r, s')"
  shows "(r = None) = epoch_ok c env"
    and "r \<noteq> None \<Longrightarrow> r = Some FitFailed \<or> r = Some PredictFailed \<or> r = Some DisposeFailed"
    and "keeps_and_appends (additionStats s) (additionStats s')
           (if addition_ok env then [ep + 1] else [])"
    and "keeps_and_appends (multiplicationStats s) (multiplicationStats s')
           (if addition_ok env \<and> multiplication_ok env then [ep + 1] else [])"
    and "keeps_and_appends (mergedStats s) (mergedStats s')
           (if epoch_ok c env then [ep + 1] else [])"
    and "isTraining s' = isTraining s"
    and "currentEpoch s' = ep + 1"
    and "a < length (tf_heap s')" and "m < length (tf_heap s')"
proof -
  let ?s0 = "s\<lparr>currentEpoch := ep + 1\<rparr>"
  obtain r1 s1 where t1: "trainAddition ep a generateAdditionData env ?s0 = (r1, s1)"
    by (cases "trainAddition ep a generateAdditionData env ?s0")
  note e1 = trainAddition_effect [OF t1]
  have "(r = None) = epoch_ok c env
    \<and> (r \<noteq> None \<longrightarrow> r = Some FitFailed \<or> r = Some PredictFailed \<or> r = Some DisposeFailed)
    \<and> keeps_and_appends (additionStats s) (additionStats s')
           (if addition_ok env then [ep + 1] else [])
    \<and> keeps_and_appends (multiplicationStats s) (multiplicationStats s')
           (if addition_ok env \<and> multiplication_ok env then [ep + 1] else [])
    \<and> keeps_and_appends (mergedStats s) (mergedStats s')
           (if epoch_ok c env then [ep + 1] else [])
    \<and> isTraining s' = isTraining s
    \<and> currentEpoch s' = ep + 1
    \<and> a < length (tf_heap s') \<and> m < length (tf_heap s')"
  proof (cases r1)
    case (Some e)
    then have rs: "r = r1" "s' = s1"
      using assms(3) t1 by (simp_all add: epochBody_def)
    have no: "\<not> addition_ok env" using e1(1) Some by simp
    show ?thesis
      using rs Some no e1(2-8) assms(1,2)
      by (auto simp: epoch_ok_def keeps_refl)
  next
    case None
    then have ok1: "addition_ok env" using e1(1) by simp
    obtain r2 s2 where t2: "trainMultiplication ep m generateMultiplicationData env s1 = (r2, s2)"
      by (cases "trainMultiplication ep m generateMultiplicationData env s1")
    note e2 = trainMultiplication_effect [OF t2]
    have v1: "a < length (tf_heap s1)" "m < length (tf_heap s1)"
      using assms(1,2) e1(8) by simp_all
    have a1: "map shape (tf_heap s1 ! a) = arch_shapes"
      using e1(9) None assms(1) by simp
    show ?thesis
    proof (cases r2)
      case (Some e)
      then have rs: "r = r2" "s' = s2"
        using assms(3) t1 t2 None by (simp_all add: epochBody_def)
      have no: "\<not> multiplication_ok env" using e2(1) Some by simp
      show ?thesis
        using rs Some no ok1 e1(3-8) e2(2-8) v1
        by (auto simp: epoch_ok_def keeps_refl)
    next
      case n2: None
      then have ok2: "multiplication_ok env" using e2(1) by simp
      have v2: "a < length (tf_heap s2)" "m < length (tf_heap s2)"
        using v1 e2(8) by simp_all
      have a2: "map shape (tf_heap s2 ! a) = arch_shapes"
        using e2(10) [OF v1(1) a1] .
      have m2: "map shape (tf_heap s2 ! m) = arch_shapes"
        using e2(9) n2 v1(2) by simp
      have t3: "testMerged ep a m c generateDivisionData env s2 = (r, s')"
        using assms(3) t1 t2 None n2 by (simp add: epochBody_def)
      note e3 = testMerged_effect [OF v2 a2 m2 t3]
      show ?thesis
        using ok1 ok2 e1(3-8) e2(2-8) e3 v2
        by (auto simp: epoch_ok_def)
    qed
  qed
  then show "(r = None) = epoch_ok c env"
    and "r \<noteq> None \<Longrightarrow> r = Some FitFailed \<or> r = Some PredictFailed \<or> r = Some DisposeFailed"
    and "keeps_and_appends (additionStats s) (additionStats s')
           (if addition_ok env then [ep + 1] else [])"
    and "keeps_and_appends (multiplicationStats s) (multiplicationStats s')
           (if addition_ok env \<and> multiplication_ok env then [ep + 1] else [])"
    and "keeps_and_appends (mergedStats s) (mergedStats s')
           (if epoch_ok c env then [ep + 1] else [])"
    and "isTraining s' = isTraining s"
    and "currentEpoch s' = ep + 1"
    and "a < length (tf_heap s')" and "m < length (tf_heap s')"
    by blast+
qed

subsection \<open>The loop over the epochs\<close>

lemma loop_complete:
  assumes "a < length (tf_heap s)" "m < length (tf_heap s)" "ep \<le> epochs"
    and "\<forall>i. ep \<le> i \<and> i < epochs \<longrightarrow> epoch_ok c (envs i)"
  shows "\<exists>s'. epochLoop envs a m c generateAdditionData generateMultiplicationData
                generateDivisionData epochs ep s = (None, s')
            \<and> keeps_and_appends (additionStats s) (additionStats s') [ep + 1..<epochs + 1]
            \<and> keeps_and_appends (multiplicationStats s) (multiplicationStats s') [ep + 1..<epochs + 1]
            \<and> keeps_and_appends (mergedStats s) (mergedStats s') [ep + 1..<epochs + 1]
            \<and> isTraining s' = isTraining s
            \<and> a < length (tf_heap s') \<and> m < length (tf_heap s')"
  using assms
proof (induction "epochs - ep" arbitrary: ep s)
  case 0
  then have "ep = epochs" by simp
  then show ?case
    using "0.prems"(1,2)
    by (simp add: epochLoop.simps [of envs a m c _ _ _ epochs epochs s] keeps_refl)
next
  case (Suc n)
  then have lt: "ep < epochs" by simp
  obtain r s1 where b: "epochBody ep a m c generateAdditionData generateMultiplicationData
      generateDivisionData (envs ep) s = (r, s1)"
    by (cases "epochBody ep a m c generateAdditionData generateMultiplicationData
      generateDivisionData (envs ep) s")
  note e = epochBody_effect [OF Suc.prems(1,2) b]
  have ok: "epoch_ok c (envs ep)" using Suc.prems(4) lt by simp
  then have oks: "addition_ok (envs ep)" "multiplication_ok (envs ep)"
    by (simp_all add: epoch_ok_def)
  have r: "r = None" using e(1) ok by simp
  have n: "n = epochs - (ep + 1)" using Suc.hyps(2) by simp
  have all: "\<forall>i. ep + 1 \<le> i \<and> i < epochs \<longrightarrow> epoch_ok c (envs i)"
    using Suc.prems(4) by simp
  from Suc.hyps(1) [OF n e(8) e(9) _ all] lt
  obtain s' where s': "epochLoop envs a m c generateAdditionData generateMultiplicationData
                generateDivisionData epochs (ep + 1) s1 = (None, s')"
      "keeps_and_appends (additionStats s1) (additionStats s') [ep + 1 + 1..<epochs + 1]"
      "keeps_and_appends (multiplicationStats s1) (multiplicationStats s') [ep + 1 + 1..<epochs + 1]"
      "keeps_and_appends (mergedStats s1) (mergedStats s') [ep + 1 + 1..<epochs + 1]"
      "isTraining s' = isTraining s1"
      "a < length (tf_heap s')" "m < length (tf_heap s')"
    by auto
  have u: "[ep + 1] @ [ep + 1 + 1..<epochs + 1] = [ep + 1..<epochs + 1]"
    using lt by (simp add: upt_conv_Cons)
  have l: "epochLoop envs a m c generateAdditionData generateMultiplicationData
                generateDivisionData epochs ep s = (None, s')"
    using lt b r s'(1)
    by (simp add: epochLoop.simps [of envs a m c _ _ _ epochs ep s])
  have k1: "keeps_and_appends (additionStats s) (additionStats s') [ep + 1..<epochs + 1]"
    using keeps_trans [OF _ s'(2), of "additionStats s" "[ep + 1]"] e(3) oks u by simp
  have k2: "keeps_and_appends (multiplicationStats s) (multiplicationStats s') [ep + 1..<epochs + 1]"
    using keeps_trans [OF _ s'(3), of "multiplicationStats s" "[ep + 1]"] e(4) oks u by simp
  have k3: "keeps_and_appends (mergedStats s) (mergedStats s') [ep + 1..<epochs + 1]"
    using keeps_trans [OF _ s'(4), of "mergedStats s" "[ep + 1]"] e(5) ok u by simp
  show ?case
    using l k1 k2 k3 s'(5-7) e(6) by simp
qed

lemma loop_split:
  assumes "ep \<le> e" "e \<le> epochs"
    and "epochLoop envs a m c d1 d2 d3 e ep s = (None, sE)"
  shows "epochLoop envs a m c d1 d2 d3 epochs ep s = epochLoop envs a m c d1 d2 d3 epochs e sE"
  using assms
proof (induction "e - ep" arbitrary: ep s)
  case 0
  then have "ep = e" by simp
  then show ?case
    using "0.prems"(3) by (simp add: epochLoop.simps [of envs a m c d1 d2 d3 e e s])
next
  case (Suc n)
  then have lt: "ep < e" "ep < epochs" by simp_all
  obtain r s1 where b: "epochBody ep a m c d1 d2 d3 (envs ep) s = (r, s1)"
    by (cases "epochBody ep a m c d1 d2 d3 (envs ep) s")
  have r: "r = None"
    using Suc.prems(3) lt(1) b
    by (cases r) (simp_all add: epochLoop.simps [of envs a m c d1 d2 d3 e ep s])
  have c: "epochLoop envs a m c d1 d2 d3 e (ep + 1) s1 = (None, sE)"
    using Suc.prems(3) lt(1) b r
    by (simp add: epochLoop.simps [of envs a m c d1 d2 d3 e ep s])
  have n: "n = e - (ep + 1)" using Suc.hyps(2) by simp
  have "epochLoop envs a m c d1 d2 d3 epochs (ep + 1) s1 = epochLoop envs a m c d1 d2 d3 epochs e sE"
    using Suc.hyps(1) [OF n _ Suc.prems(2) c] lt(1) by simp
  then show ?case
    using lt(2) b r by (simp add: epochLoop.simps [of envs a m c d1 d2 d3 epochs ep s])
qed

lemma loop_abort:
  assumes "a < length (tf_heap s)" "m < length (tf_heap s)"
    and "ep \<le> e" "e < epochs"
    and "\<forall>i. ep \<le> i \<and> i < e \<longrightarrow> epoch_ok c (envs i)"
    and "\<not> epoch_ok c (envs e)"
  shows "\<exists>sE r s'.
           epochLoop envs a m c generateAdditionData generateMultiplicationData
             generateDivisionData e ep s = (None, sE)
         \<and> epochLoop envs a m c generateAdditionData generateMultiplicationData
             generateDivisionData epochs ep s = (Some r, s')
         \<and> (r = FitFailed \<or> r = PredictFailed \<or> r = DisposeFailed)
         \<and> keeps_and_appends (additionStats s) (additionStats sE) [ep + 1..<e + 1]
         \<and> keeps_and_appends (multiplicationStats s) (multiplicationStats sE) [ep + 1..<e + 1]
         \<and> keeps_and_appends (mergedStats s) (mergedStats sE) [ep + 1..<e + 1]
         \<and> keeps_and_appends (additionStats sE) (additionStats s')
              (if addition_ok (envs e) then [e + 1] else [])
         \<and> keeps_and_appends (multiplicationStats sE) (multiplicationStats s')
              (if addition_ok (envs e) \<and> multiplication_ok (envs e) then [e + 1] else [])
         \<and> mergedStats s' = mergedStats sE
         \<and> isTraining s' = isTraining s
         \<and> currentEpoch s' = e + 1"
proof -
  from loop_complete [OF assms(1,2,3,5)]
  obtain sE where sE: "epochLoop envs a m c generateAdditionData generateMultiplicationData
                generateDivisionData e ep s = (None, sE)"
      "keeps_and_appends (additionStats s) (additionStats sE) [ep + 1..<e + 1]"
      "keeps_and_appends (multiplicationStats s) (multiplicationStats sE) [ep + 1..<e + 1]"
      "keeps_and_appends (mergedStats s) (mergedStats sE) [ep + 1..<e + 1]"
      "isTraining sE = isTraining s"
      "a < length (tf_heap sE)" "m < length (tf_heap sE)"
    by blast
  obtain r s' where b: "epochBody e a m c generateAdditionData generateMultiplicationData
      generateDivisionData (envs e) sE = (r, s')"
    by (cases "epochBody e a m c generateAdditionData generateMultiplicationData
      generateDivisionData (envs e) sE")
  note ef = epochBody_effect [OF sE(6,7) b]
  from ef(1) assms(6) obtain err where err: "r = Some err" by (cases r) auto
  with ef(2) have ek: "err = FitFailed \<or> err = PredictFailed \<or> err = DisposeFailed" by auto
  have "epochLoop envs a m c generateAdditionData generateMultiplicationData
             generateDivisionData epochs ep s =
        epochLoop envs a m c generateAdditionData generateMultiplicationData
             generateDivisionData epochs e sE"
    using assms(3,4) sE(1) by (intro loop_split) simp_all
  also have "\<dots> = (Some err, s')"
    using assms(4) b err
    by (simp add: epochLoop.simps [of envs a m c _ _ _ epochs e sE])
  finally have l: "epochLoop envs a m c generateAdditionData generateMultiplicationData
             generateDivisionData epochs ep s = (Some err, s')" .
  have d: "mergedStats s' = mergedStats sE"
    using ef(5) assms(6) by (simp add: keeps_eq)
  show ?thesis
    using sE(1-5) l ek ef(3,4,6,7) d by auto
qed

text \<open>
  Claim C3, as amended. When a library step fails in epoch \<open>e\<close> (a fit, a predict, or
  the release of the merged network of an earlier session), after the epochs before it have
  completed, the loop ends at once with that error and \<open>isTraining\<close> is left as it was.
  Every history keeps the stats it held when epoch \<open>e\<close> began, so the stats of the
  completed epochs are intact. The stats that epoch \<open>e\<close> appended before the failing
  step stay: the addition stat when the addition steps succeeded, the multiplication stat
  when the multiplication steps succeeded too. Nothing is appended to the merged history.
\<close>

theorem abort_keeps_appended_stats:
  assumes "addNet < length (tf_heap s)" and "multNet < length (tf_heap s)"
    and "ep \<le> e" and "e < epochs"
    and "\<forall>i. ep \<le> i \<and> i < e \<longrightarrow> epoch_ok closureMerged (envs i)"
    and "\<not> epoch_ok closureMerged (envs e)"
  shows "fst (epochLoop envs addNet multNet closureMerged generateAdditionData
               generateMultiplicationData generateDivisionData e ep s) = None
       \<and> (fst (epochLoop envs addNet multNet closureMerged generateAdditionData
               generateMultiplicationData generateDivisionData epochs ep s) = Some FitFailed
          \<or> fst (epochLoop envs addNet multNet closureMerged generateAdditionData
               generateMultiplicationData generateDivisionData epochs ep s) = Some PredictFailed
          \<or> fst (epochLoop envs addNet multNet closureMerged generateAdditionData
               generateMultiplicationData generateDivisionData epochs ep s) = Some DisposeFailed)
       \<and> isTraining (snd (epochLoop envs addNet multNet closureMerged generateAdditionData
               generateMultiplicationData generateDivisionData epochs ep s)) = isTraining s
       \<and> currentEpoch (snd (epochLoop envs addNet multNet closureMerged generateAdditionData
               generateMultiplicationData generateDivisionData epochs ep s)) = e + 1
       \<and> keeps_and_appends
            (additionStats (snd (epochLoop envs addNet multNet closureMerged generateAdditionData
               generateMultiplicationData generateDivisionData e ep s)))
            (additionStats (snd (epochLoop envs addNet multNet closureMerged generateAdditionData
               generateMultiplicationData generateDivisionData epochs ep s)))
            (if addition_ok (envs e) then [e + 1] else [])
       \<and> keeps_and_appends
            (multiplicationStats (snd (epochLoop envs addNet multNet closureMerged generateAdditionData
               generateMultiplicationData generateDivisionData e ep s)))
            (multiplicationStats (snd (epochLoop envs addNet multNet closureMerged generateAdditionData
               generateMultiplicationData generateDivisionData epochs ep s)))
            (if addition_ok (envs e) \<and> multiplication_ok (envs e) then [e + 1] else [])
       \<and> mergedStats (snd (epochLoop envs addNet multNet closureMerged generateAdditionData
               generateMultiplicationData generateDivisionData epochs ep s)) =
         mergedStats (snd (epochLoop envs addNet multNet closureMerged generateAdditionData
               generateMultiplicationData generateDivisionData e ep s))"
proof -
  from loop_abort [OF assms]
  obtain sE r s' where
    "epochLoop envs addNet multNet closureMerged generateAdditionData
       generateMultiplicationData generateDivisionData e ep s = (None, sE)"
    "epochLoop envs addNet multNet closureMerged generateAdditionData
       generateMultiplicationData generateDivisionData epochs ep s = (Some r, s')"
    "r = FitFailed \<or> r = PredictFailed \<or> r = DisposeFailed"
    "keeps_and_appends (additionStats sE) (additionStats s')
              (if addition_ok (envs e) then [e + 1] else [])"
    "keeps_and_appends (multiplicationStats sE) (multiplicationStats s')
              (if addition_ok (envs e) \<and> multiplication_ok (envs e) then [e + 1] else [])"
    "mergedStats s' = mergedStats sE"
    "isTraining s' = isTraining s"
    "currentEpoch s' = e + 1"
    by blast
  then show ?thesis by simp
qed

theorem abort_keeps_appended_stats_witness:
  "fst (epochLoop secondEpochFails 0 1 None generateAdditionData generateMultiplicationData
               generateDivisionData 1 0 trainingState) = None
   \<and> keeps_and_appends
        (additionStats (snd (epochLoop secondEpochFails 0 1 None generateAdditionData
               generateMultiplicationData generateDivisionData 1 0 trainingState)))
        (additionStats (snd (epochLoop secondEpochFails 0 1 None generateAdditionData
               generateMultiplicationData generateDivisionData 50 0 trainingState)))
        [2]
   \<and> multiplicationStats (snd (epochLoop secondEpochFails 0 1 None generateAdditionData
               generateMultiplicationData generateDivisionData 50 0 trainingState)) =
     multiplicationStats (snd (epochLoop secondEpochFails 0 1 None generateAdditionData
               generateMultiplicationData generateDivisionData 1 0 trainingState))"
proof -
  have h: "0 < length (tf_heap trainingState)" "1 < length (tf_heap trainingState)"
    "(0::nat) \<le> 1" "(1::nat) < 50"
    "\<forall>i. 0 \<le> i \<and> i < 1 \<longrightarrow> epoch_ok None (secondEpochFails i)"
    "\<not> epoch_ok None (secondEpochFails 1)"
    by (simp_all add: trainingState_def twoModels_def secondEpochFails_def epoch_ok_def
        addition_ok_def multiplication_ok_def merged_ok_def okEnv_def multFitFails_def)
  have a: "addition_ok (secondEpochFails 1)" "\<not> multiplication_ok (secondEpochFails 1)"
    by (simp_all add: secondEpochFails_def addition_ok_def multiplication_ok_def okEnv_def
        multFitFails_def)
  note t = abort_keeps_appended_stats [OF h]
  have n: "[1 + 1] = [2::nat]" by simp
  from t have c1: "fst (epochLoop secondEpochFails 0 1 None generateAdditionData
      generateMultiplicationData generateDivisionData 1 0 trainingState) = None"
    by (rule conjunct1)
  from t have "keeps_and_appends
        (additionStats (snd (epochLoop secondEpochFails 0 1 None generateAdditionData
               generateMultiplicationData generateDivisionData 1 0 trainingState)))
        (additionStats (snd (epochLoop secondEpochFails 0 1 None generateAdditionData
               generateMultiplicationData generateDivisionData 50 0 trainingState)))
        (if addition_ok (secondEpochFails 1) then [1 + 1] else [])"
    by blast
  then have c2: "keeps_and_appends
        (additionStats (snd (epochLoop secondEpochFails 0 1 None generateAdditionData
               generateMultiplicationData generateDivisionData 1 0 trainingState)))
        (additionStats (snd (epochLoop secondEpochFails 0 1 None generateAdditionData
               generateMultiplicationData generateDivisionData 50 0 trainingState)))
        [2]"
    using a(1) unfolding n [symmetric] by (simp only: if_True)
  from t have "keeps_and_appends
        (multiplicationStats (snd (epochLoop secondEpochFails 0 1 None generateAdditionData
               generateMultiplicationData generateDivisionData 1 0 trainingState)))
        (multiplicationStats (snd (epochLoop secondEpochFails 0 1 None generateAdditionData
               generateMultiplicationData generateDivisionData 50 0 trainingState)))
        (if addition_ok (secondEpochFails 1) \<and> multiplication_ok (secondEpochFails 1)
         then [1 + 1] else [])"
    by blast
  then have "keeps_and_appends
        (multiplicationStats (snd (epochLoop secondEpochFails 0 1 None generateAdditionData
               generateMultiplicationData generateDivisionData 1 0 trainingState)))
        (multiplicationStats (snd (epochLoop secondEpochFails 0 1 None generateAdditionData
               generateMultiplicationData generateDivisionData 50 0 trainingState)))
        []"
    using a by (simp only: simp_thms if_False)
  then have c3: "multiplicationStats (snd (epochLoop secondEpochFails 0 1 None generateAdditionData
               generateMultiplicationData generateDivisionData 50 0 trainingState)) =
     multiplicationStats (snd (epochLoop secondEpochFails 0 1 None generateAdditionData
               generateMultiplicationData generateDivisionData 1 0 trainingState))"
    by (rule keeps_eq)
  from c1 c2 c3 show ?thesis by (intro conjI)
qed

subsection \<open>A whole session\<close>

lemma trainNetworks_unfold:
  assumes "\<not> isTraining s"
  shows "trainNetworks ai mi envs s =
     (case epochLoop envs (length (tf_heap s)) (length (tf_heap s) + 1) (mergedNet s)
             generateAdditionData generateMultiplicationData generateDivisionData 50 0
             ((startSession s)\<lparr>tf_heap := tf_heap s @ [arch_weights ai] @ [arch_weights mi],
                additionNet := Some (length (tf_heap s)),
                multiplicationNet := Some (length (tf_heap s) + 1)\<rparr>) of
        (Some e, s2) \<Rightarrow> (Some e, s2)
      | (None, s2) \<Rightarrow> (None, s2\<lparr>isTraining := False\<rparr>))"
  using assms
  by (simp add: trainNetworks_def createNetwork_def Let_def startSession_def)

lemma positions_from_upt:
  "map epoch h = [1..<n + 1] \<Longrightarrow> map epoch h = [1..<length h + 1] \<and> length h = n"
proof -
  assume a: "map epoch h = [1..<n + 1]"
  then have "length (map epoch h) = length [1..<n + 1]" by (rule arg_cong)
  then have "length h = n" by simp
  with a show ?thesis by (simp del: upt_Suc)
qed

lemma session_histories:
  assumes "\<not> isTraining s"
  shows "\<exists>na nm nd. map epoch (additionStats (snd (trainNetworks ai mi envs s))) = [1..<na + 1]
        \<and> map epoch (multiplicationStats (snd (trainNetworks ai mi envs s))) = [1..<nm + 1]
        \<and> map epoch (mergedStats (snd (trainNetworks ai mi envs s))) = [1..<nd + 1]
        \<and> ((\<forall>i<50. epoch_ok (mergedNet s) (envs i)) \<longrightarrow> na = 50 \<and> nm = 50 \<and> nd = 50
              \<and> fst (trainNetworks ai mi envs s) = None
              \<and> \<not> isTraining (snd (trainNetworks ai mi envs s)))"
proof -
  define a where "a = length (tf_heap s)"
  define m where "m = length (tf_heap s) + 1"
  define s1 where "s1 = (startSession s)\<lparr>tf_heap := tf_heap s @ [arch_weights ai] @ [arch_weights mi],
                additionNet := Some (length (tf_heap s)),
                multiplicationNet := Some (length (tf_heap s) + 1)\<rparr>"
  have v: "a < length (tf_heap s1)" "m < length (tf_heap s1)"
    by (simp_all add: a_def m_def s1_def)
  have e: "additionStats s1 = []" "multiplicationStats s1 = []" "mergedStats s1 = []"
    by (simp_all add: startSession_def s1_def)
  have u: "trainNetworks ai mi envs s =
     (case epochLoop envs a m (mergedNet s) generateAdditionData generateMultiplicationData
             generateDivisionData 50 0 s1 of
        (Some e, s2) \<Rightarrow> (Some e, s2)
      | (None, s2) \<Rightarrow> (None, s2\<lparr>isTraining := False\<rparr>))"
    unfolding a_def m_def s1_def using assms by (rule trainNetworks_unfold)
  show ?thesis
  proof (cases "\<forall>i<50. epoch_ok (mergedNet s) (envs i)")
    case True
    then have all: "\<forall>i. 0 \<le> i \<and> i < 50 \<longrightarrow> epoch_ok (mergedNet s) (envs i)" by simp
    have z: "(0::nat) \<le> 50" by simp
    from loop_complete [OF v z all]
    obtain s' where s': "epochLoop envs a m (mergedNet s) generateAdditionData generateMultiplicationData
                generateDivisionData 50 0 s1 = (None, s')"
      "keeps_and_appends (additionStats s1) (additionStats s') [0 + 1..<50 + 1]"
      "keeps_and_appends (multiplicationStats s1) (multiplicationStats s') [0 + 1..<50 + 1]"
      "keeps_and_appends (mergedStats s1) (mergedStats s') [0 + 1..<50 + 1]"
      by blast
    have r: "trainNetworks ai mi envs s = (None, s'\<lparr>isTraining := False\<rparr>)"
      unfolding u s'(1) by simp
    have "map epoch (additionStats s') = [1..<50 + 1]"
      "map epoch (multiplicationStats s') = [1..<50 + 1]"
      "map epoch (mergedStats s') = [1..<50 + 1]"
      using s'(2-4) unfolding e by (simp_all add: keeps_and_appends_def del: upt_Suc)
    then show ?thesis
      unfolding r using True by (intro exI [of _ 50]) (simp del: upt_Suc)
  next
    case False
    define e where "e = (LEAST i. i < 50 \<and> \<not> epoch_ok (mergedNet s) (envs i))"
    from False have ex: "\<exists>i. i < 50 \<and> \<not> epoch_ok (mergedNet s) (envs i)" by auto
    then have e1: "e < 50" "\<not> epoch_ok (mergedNet s) (envs e)"
      unfolding e_def by (metis (mono_tags, lifting) LeastI)+
    have e2: "\<forall>i. 0 \<le> i \<and> i < e \<longrightarrow> epoch_ok (mergedNet s) (envs i)"
    proof (intro allI impI)
      fix i assume i: "0 \<le> i \<and> i < e"
      show "epoch_ok (mergedNet s) (envs i)"
      proof (rule ccontr)
        assume "\<not> epoch_ok (mergedNet s) (envs i)"
        with i e1(1) have "i < 50 \<and> \<not> epoch_ok (mergedNet s) (envs i)" by simp
        then have "e \<le> i" unfolding e_def by (rule Least_le)
        with i show False by simp
      qed
    qed
    have z: "0 \<le> e" by simp
    from loop_abort [OF v z e1(1) e2 e1(2)]
    obtain sE r s' where "epochLoop envs a m (mergedNet s) generateAdditionData generateMultiplicationData
             generateDivisionData e 0 s1 = (None, sE)"
      and l: "epochLoop envs a m (mergedNet s) generateAdditionData generateMultiplicationData
             generateDivisionData 50 0 s1 = (Some r, s')"
      and k: "keeps_and_appends (additionStats s1) (additionStats sE) [0 + 1..<e + 1]"
        "keeps_and_appends (multiplicationStats s1) (multiplicationStats sE) [0 + 1..<e + 1]"
        "keeps_and_appends (mergedStats s1) (mergedStats sE) [0 + 1..<e + 1]"
        "keeps_and_appends (additionStats sE) (additionStats s')
              (if addition_ok (envs e) then [e + 1] else [])"
        "keeps_and_appends (multiplicationStats sE) (multiplicationStats s')
              (if addition_ok (envs e) \<and> multiplication_ok (envs e) then [e + 1] else [])"
        "mergedStats s' = mergedStats sE"
      by blast
    have r: "trainNetworks ai mi envs s = (Some r, s')"
      unfolding u l by simp
    have a: "map epoch (additionStats s') =
        [1..<e + 1] @ (if addition_ok (envs e) then [e + 1] else [])"
      using keeps_trans [OF k(1) k(4)] unfolding e by (simp add: keeps_and_appends_def del: upt_Suc)
    have m: "map epoch (multiplicationStats s') =
        [1..<e + 1] @ (if addition_ok (envs e) \<and> multiplication_ok (envs e) then [e + 1] else [])"
      using keeps_trans [OF k(2) k(5)] unfolding e by (simp add: keeps_and_appends_def del: upt_Suc)
    have d: "map epoch (mergedStats s') = [1..<e + 1]"
      using k(3,6) unfolding e by (simp add: keeps_and_appends_def del: upt_Suc)
    have a': "\<exists>na. map epoch (additionStats s') = [1..<na + 1]"
    proof (cases "addition_ok (envs e)")
      case True
      with a have "map epoch (additionStats s') = [1..<(e + 1) + 1]" by (simp del: upt_Suc add: upt_Suc_append)
      then show ?thesis by (rule exI)
    next
      case False
      with a have "map epoch (additionStats s') = [1..<e + 1]" by (simp del: upt_Suc)
      then show ?thesis by (rule exI)
    qed
    have m': "\<exists>nm. map epoch (multiplicationStats s') = [1..<nm + 1]"
    proof (cases "addition_ok (envs e) \<and> multiplication_ok (envs e)")
      case True
      with m have "map epoch (multiplicationStats s') = [1..<(e + 1) + 1]" by (simp del: upt_Suc add: upt_Suc_append)
      then show ?thesis by (rule exI)
    next
      case False
      with m have "map epoch (multiplicationStats s') = [1..<e + 1]" by (simp del: upt_Suc)
      then show ?thesis by (rule exI)
    qed
    show ?thesis
      unfolding r using a' m' d False by (auto simp del: upt_Suc)
  qed
qed

text \<open>
  A session whose first epoch fails in the fit of the multiplication network: the session
  ends with an error, no epoch has completed, and the addition history holds the stat of
  the failed epoch, with epoch index 1.
\<close>

theorem partial_stat_counterexample:
  "fst (trainNetworks zeroInit zeroInit firstEpochFails idleState) = Some FitFailed
   \<and> map epoch (additionStats (snd (trainNetworks zeroInit zeroInit firstEpochFails idleState))) = [1]
   \<and> multiplicationStats (snd (trainNetworks zeroInit zeroInit firstEpochFails idleState)) = []
   \<and> mergedStats (snd (trainNetworks zeroInit zeroInit firstEpochFails idleState)) = []"
proof -
  define s1 where "s1 = (startSession idleState)\<lparr>tf_heap := tf_heap idleState @
      [arch_weights zeroInit] @ [arch_weights zeroInit],
      additionNet := Some (length (tf_heap idleState)),
      multiplicationNet := Some (length (tf_heap idleState) + 1)\<rparr>"
  have e: "additionStats s1 = []" "multiplicationStats s1 = []" "mergedStats s1 = []"
    by (simp_all add: s1_def startSession_def)
  have u: "trainNetworks zeroInit zeroInit firstEpochFails idleState =
     (case epochLoop firstEpochFails (length (tf_heap idleState)) (length (tf_heap idleState) + 1)
             (mergedNet idleState) generateAdditionData generateMultiplicationData generateDivisionData 50 0 s1 of
        (Some e, s2) \<Rightarrow> (Some e, s2)
      | (None, s2) \<Rightarrow> (None, s2\<lparr>isTraining := False\<rparr>))"
    unfolding s1_def by (rule trainNetworks_unfold) (simp add: idleState_def)
  obtain r1 s2 where t1: "trainAddition 0 (length (tf_heap idleState)) generateAdditionData
      (firstEpochFails 0) (s1\<lparr>currentEpoch := 0 + 1\<rparr>) = (r1, s2)"
    by (cases "trainAddition 0 (length (tf_heap idleState)) generateAdditionData
      (firstEpochFails 0) (s1\<lparr>currentEpoch := 0 + 1\<rparr>)")
  note ef = trainAddition_effect [OF t1]
  have ok: "addition_ok (firstEpochFails 0)"
    by (simp add: firstEpochFails_def multFitFails_def okEnv_def addition_ok_def)
  have r1: "r1 = None" using ef(1) ok by simp
  have mf: "multFit (firstEpochFails 0) = None"
    by (simp add: firstEpochFails_def multFitFails_def)
  have b: "epochBody 0 (length (tf_heap idleState)) (length (tf_heap idleState) + 1)
      (mergedNet idleState) generateAdditionData generateMultiplicationData generateDivisionData
      (firstEpochFails 0) s1 = (Some FitFailed, s2)"
    using t1 r1 mf by (simp add: epochBody_def trainMultiplication_def)
  have l: "epochLoop firstEpochFails (length (tf_heap idleState)) (length (tf_heap idleState) + 1)
             (mergedNet idleState) generateAdditionData generateMultiplicationData generateDivisionData 50 0 s1 =
           (Some FitFailed, s2)"
    using b by (simp add: epochLoop.simps [of firstEpochFails _ _ _ _ _ _ 50 0 s1])
  have r: "trainNetworks zeroInit zeroInit firstEpochFails idleState = (Some FitFailed, s2)"
    unfolding u l by simp
  have "map epoch (additionStats s2) = [1]"
    using ef(3) ok e(1) by (simp add: keeps_and_appends_def)
  moreover have "multiplicationStats s2 = []" "mergedStats s2 = []"
    using ef(4,5) e by simp_all
  ultimately show ?thesis unfolding r by simp
qed

lemma last_epoch_upt:
  assumes "map epoch h = [1..<n + 1]" "0 < n"
  shows "epoch (last h) = n"
proof -
  from assms have ne: "h \<noteq> []" by auto
  then have "epoch (last h) = last (map epoch h)" by (simp add: last_map)
  also have "\<dots> = n" unfolding assms(1) using assms(2) by simp
  finally show ?thesis .
qed

text \<open>
  Claim C7. After \<open>trainNetworks\<close>, started when no session is running, the epoch index
  of every stat in each of the three histories is its position, counted from one, whether
  the session completed or not. When no library call fails, the session completes, and
  each history has length 50 and ends with epoch index 50. Starting the session empties
  the three histories before anything is appended: the outcome does not depend on what
  the histories held before.
\<close>

theorem epoch_index_positions:
  assumes "\<not> isTraining s"
  shows "map epoch (additionStats (snd (trainNetworks ai mi envs s))) =
           [1..<length (additionStats (snd (trainNetworks ai mi envs s))) + 1]
       \<and> map epoch (multiplicationStats (snd (trainNetworks ai mi envs s))) =
           [1..<length (multiplicationStats (snd (trainNetworks ai mi envs s))) + 1]
       \<and> map epoch (mergedStats (snd (trainNetworks ai mi envs s))) =
           [1..<length (mergedStats (snd (trainNetworks ai mi envs s))) + 1]
       \<and> ((\<forall>i<50. epoch_ok (mergedNet s) (envs i)) \<longrightarrow>
             fst (trainNetworks ai mi envs s) = None
           \<and> \<not> isTraining (snd (trainNetworks ai mi envs s))
           \<and> length (additionStats (snd (trainNetworks ai mi envs s))) = 50
           \<and> epoch (last (additionStats (snd (trainNetworks ai mi envs s)))) = 50
           \<and> length (multiplicationStats (snd (trainNetworks ai mi envs s))) = 50
           \<and> epoch (last (multiplicationStats (snd (trainNetworks ai mi envs s)))) = 50
           \<and> length (mergedStats (snd (trainNetworks ai mi envs s))) = 50
           \<and> epoch (last (mergedStats (snd (trainNetworks ai mi envs s)))) = 50)
       \<and> additionStats (startSession s) = []
       \<and> multiplicationStats (startSession s) = []
       \<and> mergedStats (startSession s) = []
       \<and> trainNetworks ai mi envs
            (s\<lparr>additionStats := x, multiplicationStats := y, mergedStats := z\<rparr>) =
          trainNetworks ai mi envs s"
proof -
  let ?s' = "snd (trainNetworks ai mi envs s)"
  from session_histories [OF assms, of ai mi envs]
  obtain na nm nd where h: "map epoch (additionStats ?s') = [1..<na + 1]"
    "map epoch (multiplicationStats ?s') = [1..<nm + 1]"
    "map epoch (mergedStats ?s') = [1..<nd + 1]"
    and f: "(\<forall>i<50. epoch_ok (mergedNet s) (envs i)) \<longrightarrow> na = 50 \<and> nm = 50 \<and> nd = 50
              \<and> fst (trainNetworks ai mi envs s) = None \<and> \<not> isTraining ?s'"
    by blast
  note p = positions_from_upt [OF h(1)] positions_from_upt [OF h(2)] positions_from_upt [OF h(3)]
  have full: "fst (trainNetworks ai mi envs s) = None
           \<and> \<not> isTraining ?s'
           \<and> length (additionStats ?s') = 50 \<and> epoch (last (additionStats ?s')) = 50
           \<and> length (multiplicationStats ?s') = 50 \<and> epoch (last (multiplicationStats ?s')) = 50
           \<and> length (mergedStats ?s') = 50 \<and> epoch (last (mergedStats ?s')) = 50"
    if "\<forall>i<50. epoch_ok (mergedNet s) (envs i)"
  proof -
    from f that have n: "na = 50" "nm = 50" "nd = 50"
      and r: "fst (trainNetworks ai mi envs s) = None" "\<not> isTraining ?s'"
      by simp_all
    have "epoch (last (additionStats ?s')) = 50"
      "epoch (last (multiplicationStats ?s')) = 50"
      "epoch (last (mergedStats ?s')) = 50"
      using last_epoch_upt [OF h(1)] last_epoch_upt [OF h(2)] last_epoch_upt [OF h(3)] n
      by simp_all
    then show ?thesis using p n r by simp
  qed
  have reset: "additionStats (startSession s) = []" "multiplicationStats (startSession s) = []"
    "mergedStats (startSession s) = []"
    by (simp_all add: startSession_def)
  have indep: "trainNetworks ai mi envs
            (s\<lparr>additionStats := x, multiplicationStats := y, mergedStats := z\<rparr>) =
          trainNetworks ai mi envs s"
    using assms by (simp add: trainNetworks_def startSession_def)
  show ?thesis
    using p full reset indep by blast
qed

theorem epoch_index_positions_witness:
  "fst (trainNetworks zeroInit zeroInit allEpochsOk idleState) = None
   \<and> length (additionStats (snd (trainNetworks zeroInit zeroInit allEpochsOk idleState))) = 50
   \<and> epoch (last (mergedStats (snd (trainNetworks zeroInit zeroInit allEpochsOk idleState)))) = 50"
proof -
  have h: "\<not> isTraining idleState" by (simp add: idleState_def)
  have a: "\<forall>i<50. epoch_ok (mergedNet idleState) (allEpochsOk i)"
    by (simp add: allEpochsOk_def okEnv_def epoch_ok_def addition_ok_def multiplication_ok_def
        merged_ok_def)
  note t = epoch_index_positions [OF h, of zeroInit zeroInit allEpochsOk]
  from t a show ?thesis by blast
qed

end
